theory Spec2Isabelle
  imports Main "HOL-Library.Multiset"
begin

section \<open>The JavaScript runtime, as far as App.jsx uses it\<close>

text \<open>
  A JavaScript string is modelled as a \<^typ>\<open>string\<close>: one \<^typ>\<open>char\<close> per code unit,
  for the code units 0..255 (ASCII and Latin-1). Within that range the functions below
  are the ones of ECMAScript.
\<close>

subsection \<open>Strings\<close>

definition toLowerChar :: "char \<Rightarrow> char" where
  \<comment> \<open>\<open>String.prototype.toLowerCase\<close> on one code unit below 256: A-Z, and the Latin-1
      capitals U+00C0..U+00DE without the multiplication sign U+00D7.\<close>
  "toLowerChar c =
     (let n = (of_char c :: nat)
      in if (65 \<le> n \<and> n \<le> 90) \<or> (192 \<le> n \<and> n \<le> 222 \<and> n \<noteq> 215)
         then char_of (n + 32) else c)"

definition toLowerCase :: "string \<Rightarrow> string" where
  "toLowerCase s = map toLowerChar s"

definition isWhiteSpace :: "char \<Rightarrow> bool" where
  \<comment> \<open>WhiteSpace and LineTerminator below 256: TAB, LF, VT, FF, CR, SP, NBSP. This is
      what \<open>trim\<close>, the regular expression class \<open>\s\<close> and \<open>parseInt\<close> skip.\<close>
  "isWhiteSpace c = ((of_char c :: nat) \<in> {9, 10, 11, 12, 13, 32, 160})"

definition trim :: "string \<Rightarrow> string" where
  "trim s = rev (dropWhile isWhiteSpace (rev (dropWhile isWhiteSpace s)))"

definition startsWith :: "string \<Rightarrow> string \<Rightarrow> bool" where
  "startsWith s q = (take (length q) s = q)"

fun includes_str :: "string \<Rightarrow> string \<Rightarrow> bool" where
  \<comment> \<open>\<open>s.includes(q)\<close>: \<open>q\<close> occurs in \<open>s\<close> as a contiguous run of code units.\<close>
  "includes_str [] q = (q = [])"
| "includes_str (c # cs) q = (startsWith (c # cs) q \<or> includes_str cs q)"

fun join_str :: "string \<Rightarrow> string list \<Rightarrow> string" where
  \<comment> \<open>\<open>xs.join(sep)\<close>\<close>
  "join_str sep [] = []"
| "join_str sep [x] = x"
| "join_str sep (x # y # zs) = x @ sep @ join_str sep (y # zs)"

fun split_char :: "char \<Rightarrow> string \<Rightarrow> string list" where
  \<comment> \<open>\<open>s.split(sep)\<close> for a separator of one character: the empty string gives one
      empty piece.\<close>
  "split_char sep [] = [[]]"
| "split_char sep (c # cs) =
     (if c = sep then [] # split_char sep cs
      else (case split_char sep cs of [] \<Rightarrow> [[c]] | f # fs \<Rightarrow> (c # f) # fs))"

definition isSeparator :: "char \<Rightarrow> bool" where
  \<comment> \<open>the character class \<open>[\s-]\<close>\<close>
  "isSeparator c = (isWhiteSpace c \<or> c = CHR ''-'')"

fun split_separators :: "string \<Rightarrow> string list" where
  \<comment> \<open>\<open>s.split(/[\s-]+/)\<close>: a maximal run of separators splits once, at its last
      character here; a run at the start or at the end leaves an empty piece, as in
      JavaScript.\<close>
  "split_separators [] = [[]]"
| "split_separators (c # cs) =
     (if isSeparator c then
        (case cs of
           [] \<Rightarrow> [[], []]
         | d # _ \<Rightarrow> if isSeparator d then split_separators cs else [] # split_separators cs)
      else (case split_separators cs of [] \<Rightarrow> [[c]] | f # fs \<Rightarrow> (c # f) # fs))"

definition digitValue :: "char \<Rightarrow> nat option" where
  \<comment> \<open>the value of a digit of \<open>parseInt\<close>: 0-9, a-z, A-Z\<close>
  "digitValue c =
     (let n = (of_char c :: nat)
      in if 48 \<le> n \<and> n \<le> 57 then Some (n - 48)
         else if 97 \<le> n \<and> n \<le> 122 then Some (n - 87)
         else if 65 \<le> n \<and> n \<le> 90 then Some (n - 55)
         else None)"

definition isDigitOf :: "nat \<Rightarrow> char \<Rightarrow> bool" where
  "isDigitOf radix c = (case digitValue c of None \<Rightarrow> False | Some v \<Rightarrow> v < radix)"

definition digitsValue :: "nat \<Rightarrow> string \<Rightarrow> int" where
  "digitsValue radix ds =
     foldl (\<lambda>a c. a * int radix + (case digitValue c of None \<Rightarrow> 0 | Some v \<Rightarrow> int v)) 0 ds"

definition parseInt :: "string \<Rightarrow> int option" where
  \<comment> \<open>\<open>parseInt(s)\<close> with no radix; \<open>None\<close> is NaN. Leading white space is skipped, a
      sign is read, a prefix 0x or 0X selects radix 16, and the longest run of digits
      is the value: what follows it is ignored. The value is exact here, where
      JavaScript rounds beyond 2^53.\<close>
  "parseInt s =
     (let t = dropWhile isWhiteSpace s;
          sign = (if startsWith t ''-'' then - 1 else (1 :: int));
          u = (if startsWith t ''-'' \<or> startsWith t ''+'' then tl t else t);
          hex = (length u \<ge> 2 \<and> (take 2 u = ''0x'' \<or> take 2 u = ''0X''));
          radix = (if hex then 16 else 10);
          v = (if hex then drop 2 u else u);
          ds = takeWhile (isDigitOf radix) v
      in if ds = [] then None else Some (sign * digitsValue radix ds))"

subsection \<open>Dates\<close>

text \<open>
  A \<open>Date\<close> object is its time value: \<open>Some t\<close> for \<open>t\<close> milliseconds since the epoch,
  \<open>None\<close> for NaN (an Invalid Date). \<open>new Date(0)\<close> is \<open>Some 0\<close>.
\<close>

type_synonym jsdate = "int option"

definition msPerDay :: int where
  "msPerDay = 86400000"

definition TimeClip :: "int \<Rightarrow> jsdate" where
  "TimeClip t = (if \<bar>t\<bar> > 8640000000000000 then None else Some t)"

definition DayFromYear :: "int \<Rightarrow> int" where
  "DayFromYear y =
     365 * (y - 1970) + (y - 1969) div 4 - (y - 1901) div 100 + (y - 1601) div 400"

definition InLeapYear :: "int \<Rightarrow> bool" where
  "InLeapYear y = (y mod 4 = 0 \<and> (y mod 100 \<noteq> 0 \<or> y mod 400 = 0))"

definition monthStart :: "int \<Rightarrow> nat \<Rightarrow> int" where
  \<comment> \<open>the day within year \<open>y\<close> on which month \<open>m\<close> (0 = January) begins\<close>
  "monthStart y m =
     [0, 31, 59, 90, 120, 151, 181, 212, 243, 273, 304, 334] ! m
     + (if InLeapYear y \<and> 2 \<le> m then 1 else 0)"

definition firstOfMonth :: "int \<Rightarrow> nat \<Rightarrow> int" where
  \<comment> \<open>\<open>MakeDate(MakeDay(y, m, 1), 0)\<close> for a month \<open>m < 12\<close>: midnight on the first day
      of the month, read as a time value\<close>
  "firstOfMonth y m = (DayFromYear y + monthStart y m) * msPerDay"

record env =
  Date_parse :: "string \<Rightarrow> jsdate"
    \<comment> \<open>the time value of \<open>new Date(s)\<close> for a string \<open>s\<close>: the engine's own parser,
        which ECMAScript fixes for the ISO format only\<close>
  UTC :: "int \<Rightarrow> int"
    \<comment> \<open>ECMAScript's \<open>UTC(t)\<close>: the time value of the local time \<open>t\<close> (the time zone
        of the browser)\<close>
  encodeURIComponent :: "string \<Rightarrow> string"

definition new_Date_local :: "env \<Rightarrow> int \<Rightarrow> nat \<Rightarrow> jsdate" where
  \<comment> \<open>\<open>new Date(year, month, 1)\<close> for \<open>month < 12\<close>: a year from 0 to 99 means
      1900 + year; the result is an Invalid Date outside the range of time values.\<close>
  "new_Date_local e year month =
     (let yr = (if 0 \<le> year \<and> year \<le> 99 then 1900 + year else year)
      in TimeClip (UTC e (firstOfMonth yr month)))"

section \<open>parseDate\<close>

definition months :: "string \<rightharpoonup> nat" where
  "months = map_of
     [(''jan'', 0), (''feb'', 1), (''mar'', 2), (''apr'', 3), (''may'', 4), (''jun'', 5),
      (''jul'', 6), (''aug'', 7), (''sep'', 8), (''oct'', 9), (''nov'', 10), (''dec'', 11)]"

definition parseDate :: "env \<Rightarrow> string option \<Rightarrow> jsdate" where
  \<comment> \<open>The argument is \<open>None\<close> for \<open>null\<close> or \<open>undefined\<close>. No property that
      \<open>months\<close> inherits from \<open>Object.prototype\<close> has a name of three characters or
      fewer, so \<open>months[monthName]\<close> is a lookup in the table.\<close>
  "parseDate e dateStr =
     (case dateStr of
        None \<Rightarrow> Some 0
      | Some s \<Rightarrow>
          if s = [] then Some 0
          else (case Date_parse e s of
                  Some t \<Rightarrow> Some t
                | None \<Rightarrow>
                    (let parts = split_separators (trim s)
                     in if length parts \<ge> 2 then
                          (let monthName = take 3 (toLowerCase (hd parts));
                               year = parseInt (last parts)
                           in case (months monthName, year) of
                                (Some m, Some y) \<Rightarrow> new_Date_local e y m
                              | _ \<Rightarrow> Some 0)
                        else Some 0)))"

section \<open>The data of the application\<close>

datatype jsfield = Undefined | Null | Str string
  \<comment> \<open>a field that holds a string, \<open>null\<close> or \<open>undefined\<close>\<close>

datatype author_field = Names "string list" | Text string | Absent
  \<comment> \<open>\<open>author_name\<close>: an array of names; the code also allows for one string and for a
      missing or empty value\<close>

text \<open>
  \<open>sortDate\<close> is stored as the ISO string \<open>d.toISOString()\<close> of a valid \<open>Date\<close> and read
  back with \<open>new Date(sortDate)\<close>, which gives the time value of \<open>d\<close> again (ECMAScript:
  Date.parse(x.toISOString()) is x.valueOf()); \<open>toISOString\<close> throws a RangeError on an
  Invalid Date, so no other string is written by the application. The records hold the
  time value that the string denotes.
\<close>

record bookData =
  title :: string
  author_name :: author_field
  coverUrl :: jsfield
  isbn :: jsfield
  status :: string
  sortDate :: int
  displayDate :: string
  proposer :: string
  comments :: jsfield
  goodreadsLink :: string
  wcclsLink :: string
  multcolibLink :: string
  attemptedV2 :: bool

record book = bookData +
  key :: string

record searchResult =
  sr_key :: string
  sr_title :: string
  sr_author_name :: author_field
  sr_coverUrl :: jsfield
  sr_isbn :: jsfield
  sr_goodreadsLink :: string
  sr_wcclsLink :: string
  sr_multcolibLink :: string

record user =
  email :: string

datatype exn = RangeError | Error string

definition toISOString :: "jsdate \<Rightarrow> exn + int" where
  \<comment> \<open>the stored form of a date (see above); a RangeError on an Invalid Date\<close>
  "toISOString d = (case d of None \<Rightarrow> Inl RangeError | Some t \<Rightarrow> Inr t)"

record app_state =
  currentUser :: "user option"
  showLogin :: bool
  activeTab :: string
  searchQuery :: string
  filterQuery :: string
  searchResults :: "searchResult list"
  isLoading :: bool
  myBooks :: "book list"
  store :: "string \<rightharpoonup> bookData"
    \<comment> \<open>the Firestore collection "books": document id to document\<close>
  alerts :: "string list"
    \<comment> \<open>the messages shown with \<open>alert\<close>, oldest first\<close>

definition snapshot_book :: "string \<Rightarrow> bookData \<Rightarrow> book" where
  \<comment> \<open>\<open>{...doc.data(), key: doc.id}\<close>, the entry of \<open>myBooks\<close> for a stored document\<close>
  "snapshot_book k d =
     \<lparr> title = title d, author_name = author_name d, coverUrl = coverUrl d, isbn = isbn d,
       status = status d, sortDate = sortDate d, displayDate = displayDate d,
       proposer = proposer d, comments = comments d, goodreadsLink = goodreadsLink d,
       wcclsLink = wcclsLink d, multcolibLink = multcolibLink d, attemptedV2 = attemptedV2 d,
       key = k \<rparr>"

definition ADMIN_EMAILS :: "string list" where
  "ADMIN_EMAILS = [''sharon@tutorshiba.com'']"

definition isAdmin :: "user option \<Rightarrow> bool" where
  "isAdmin u =
     (case u of
        None \<Rightarrow> False
      | Some cu \<Rightarrow> list_ex (\<lambda>em. toLowerCase em = toLowerCase (email cu)) ADMIN_EMAILS)"

section \<open>getDisplayBooks\<close>

fun insert_cmp :: "('a \<Rightarrow> 'a \<Rightarrow> int) \<Rightarrow> 'a \<Rightarrow> 'a list \<Rightarrow> 'a list" where
  "insert_cmp cmp x [] = [x]"
| "insert_cmp cmp x (y # ys) =
     (if cmp x y \<le> 0 then x # y # ys else y # insert_cmp cmp x ys)"

definition Array_sort :: "('a \<Rightarrow> 'a \<Rightarrow> int) \<Rightarrow> 'a list \<Rightarrow> 'a list" where
  \<comment> \<open>\<open>xs.sort(cmp)\<close>: ECMAScript's sort is stable, so for a comparator that is a
      difference of keys the result is fixed by the specification; this insertion sort
      computes it.\<close>
  "Array_sort cmp xs = foldr (insert_cmp cmp) xs []"

definition authorText :: "author_field \<Rightarrow> string" where
  \<comment> \<open>\<open>Array.isArray(a) ? a.join(' ') : (a || '')\<close>\<close>
  "authorText a = (case a of Names ns \<Rightarrow> join_str '' '' ns | Text t \<Rightarrow> t | Absent \<Rightarrow> [])"

definition matchesFilter :: "string \<Rightarrow> string \<Rightarrow> book \<Rightarrow> bool" where
  \<comment> \<open>the predicate of \<open>myBooks.filter\<close>\<close>
  "matchesFilter tab q b =
     (status b = tab \<and>
      (includes_str (toLowerCase (title b)) (toLowerCase q) \<or>
       includes_str (toLowerCase (authorText (author_name b))) (toLowerCase q)))"

datatype display = SearchList "searchResult list" | BookList "book list"

definition getDisplayBooks :: "app_state \<Rightarrow> display" where
  "getDisplayBooks st =
     (if activeTab st = ''search'' then SearchList (searchResults st)
      else
        (let books = filter (matchesFilter (activeTab st) (filterQuery st)) (myBooks st)
         in if activeTab st = ''scheduled''
            then BookList (Array_sort (\<lambda>a b. sortDate a - sortDate b) books)
            else BookList (Array_sort (\<lambda>a b. sortDate b - sortDate a) books)))"

section \<open>migrateFromGoogleSheet: reading the sheet\<close>

definition isQuote :: "char \<Rightarrow> bool" where
  "isQuote c = (c = CHR 0x22)"

definition quotes :: "string \<Rightarrow> nat" where
  "quotes s = length (filter isQuote s)"

fun split_fields :: "string \<Rightarrow> string list" where
  \<comment> \<open>\<open>row.split(/,(?=(?:(?:[^"]*"){2})*[^"]*$)/)\<close>: the separator is one comma, and
      its lookahead holds when the rest of the string, up to its end, is pairs of double
      quotes among other characters, that is, holds an even number of them.\<close>
  "split_fields [] = [[]]"
| "split_fields (c # cs) =
     (if c = CHR '','' \<and> even (quotes cs) then [] # split_fields cs
      else (case split_fields cs of [] \<Rightarrow> [[c]] | f # fs \<Rightarrow> (c # f) # fs))"

definition strip_quotes :: "string \<Rightarrow> string" where
  \<comment> \<open>\<open>c.replace(/^"|"$/g, '')\<close>: a double quote at the start is removed, and one at
      the end of what is left\<close>
  "strip_quotes s =
     (let s1 = (case s of [] \<Rightarrow> [] | c # cs \<Rightarrow> if isQuote c then cs else s)
      in if s1 \<noteq> [] \<and> isQuote (last s1) then butlast s1 else s1)"

definition row_cols :: "string \<Rightarrow> string list" where
  "row_cols row = map (\<lambda>c. trim (strip_quotes c)) (split_fields row)"

definition header_cols :: "string \<Rightarrow> string list" where
  "header_cols row = map (\<lambda>h. toLowerCase (trim (strip_quotes h))) (split_fields row)"

fun findIndex :: "('a \<Rightarrow> bool) \<Rightarrow> 'a list \<Rightarrow> nat option" where
  \<comment> \<open>\<open>None\<close> is -1\<close>
  "findIndex P [] = None"
| "findIndex P (x # xs) =
     (if P x then Some 0 else (case findIndex P xs of None \<Rightarrow> None | Some k \<Rightarrow> Some (Suc k)))"

definition at_index :: "'a list \<Rightarrow> nat \<Rightarrow> 'a option" where
  \<comment> \<open>\<open>xs[k]\<close>; \<open>None\<close> is \<open>undefined\<close>\<close>
  "at_index xs k = (if k < length xs then Some (xs ! k) else None)"

record columns =
  tI :: nat
  aI :: nat
  dateIdx :: "nat option"
  proposerIdx :: "nat option"
  isbnIdx :: "nat option"
  commentsIdx :: "nat option"

definition find_columns :: "string list \<Rightarrow> columns" where
  "find_columns headers =
     \<lparr> tI = (case findIndex (\<lambda>h. includes_str h ''title'' \<or> includes_str h ''book'') headers of
               None \<Rightarrow> 0 | Some k \<Rightarrow> k),
       aI = (case findIndex (\<lambda>h. includes_str h ''author'') headers of
               None \<Rightarrow> 1 | Some k \<Rightarrow> k),
       dateIdx = findIndex (\<lambda>h. includes_str h ''month'' \<or> includes_str h ''read''
                                 \<or> includes_str h ''year'') headers,
       proposerIdx = findIndex (\<lambda>h. includes_str h ''proposer'' \<or> includes_str h ''host'') headers,
       isbnIdx = findIndex (\<lambda>h. includes_str h ''isbn'') headers,
       commentsIdx = findIndex (\<lambda>h. includes_str h ''comment'' \<or> includes_str h ''note'') headers \<rparr>"

definition or_empty :: "string list \<Rightarrow> nat option \<Rightarrow> string" where
  \<comment> \<open>\<open>idx !== -1 ? (cols[idx] || '') : ''\<close>\<close>
  "or_empty cols idx =
     (case idx of
        None \<Rightarrow> []
      | Some k \<Rightarrow> (case at_index cols k of None \<Rightarrow> [] | Some c \<Rightarrow> c))"

definition col_field :: "string list \<Rightarrow> nat option \<Rightarrow> jsfield \<Rightarrow> jsfield" where
  \<comment> \<open>\<open>idx !== -1 ? cols[idx] : dflt\<close>\<close>
  "col_field cols idx dflt =
     (case idx of
        None \<Rightarrow> dflt
      | Some k \<Rightarrow> (case at_index cols k of None \<Rightarrow> Undefined | Some c \<Rightarrow> Str c))"

definition month_names :: "string list" where
  "month_names = [''jan'', ''feb'', ''mar'', ''apr'', ''may'', ''jun'',
                  ''jul'', ''aug'', ''sep'', ''oct'', ''nov'', ''dec'']"

definition hasMonth :: "string \<Rightarrow> bool" where
  \<comment> \<open>\<open>/(jan|feb|mar|apr|may|jun|jul|aug|sep|oct|nov|dec)/i.test(s)\<close>: one of the twelve
      names stands somewhere in \<open>s\<close>, letters compared without case. No code unit from
      128 to 255 becomes an ASCII letter in lower case, so comparing the lower-cased
      text is the same test.\<close>
  "hasMonth s = list_ex (\<lambda>m. includes_str (toLowerCase s) m) month_names"

definition normalizedTitle :: "string \<Rightarrow> string" where
  \<comment> \<open>\<open>title.toLowerCase().trim()\<close>\<close>
  "normalizedTitle t = trim (toLowerCase t)"

definition setTime :: "int \<Rightarrow> jsdate" where
  "setTime t = TimeClip t"

definition search_link :: "env \<Rightarrow> string \<Rightarrow> string \<Rightarrow> string \<Rightarrow> string" where
  "search_link e prefix what suffix = prefix @ encodeURIComponent e what @ suffix"

definition goodreads :: "env \<Rightarrow> string \<Rightarrow> string" where
  "goodreads e what = search_link e ''https://www.goodreads.com/search?q='' what []"

definition wccls :: "env \<Rightarrow> string \<Rightarrow> string" where
  "wccls e what =
     search_link e ''https://wccls.bibliocommons.com/v2/search?query='' what ''&searchType=smart''"

definition multcolib :: "env \<Rightarrow> string \<Rightarrow> string" where
  "multcolib e what =
     search_link e ''https://multcolib.bibliocommons.com/v2/search?query='' what ''&searchType=smart''"

datatype row_result = Skipped | Produced bookData | Threw exn

definition row_bookData :: "env \<Rightarrow> columns \<Rightarrow> string list \<Rightarrow> string \<Rightarrow> string \<Rightarrow> int \<Rightarrow> bookData" where
  \<comment> \<open>the object \<open>bookData\<close> of a row with the columns \<open>cols\<close>, which has a title and an
      author column\<close>
  "row_bookData e cs cols monthYear stat isoDate =
     \<lparr> title = cols ! tI cs,
       author_name = Names [cols ! aI cs],
       coverUrl = Null,
       isbn = col_field cols (isbnIdx cs) Null,
       status = stat,
       sortDate = isoDate,
       displayDate = monthYear,
       proposer = or_empty cols (proposerIdx cs),
       comments = col_field cols (commentsIdx cs) (Str []),
       goodreadsLink = goodreads e (cols ! tI cs @ '' '' @ cols ! aI cs),
       wcclsLink = wccls e (cols ! tI cs @ '' '' @ cols ! aI cs),
       multcolibLink = multcolib e (cols ! tI cs @ '' '' @ cols ! aI cs),
       attemptedV2 = False \<rparr>"

definition import_row ::
  "env \<Rightarrow> (nat \<Rightarrow> int) \<Rightarrow> columns \<Rightarrow> string list \<Rightarrow> nat \<Rightarrow> string \<Rightarrow> row_result \<times> string list"
where
  \<comment> \<open>The body of the loop for row \<open>i\<close>: \<open>now i\<close> is the time value of the \<open>new Date()\<close>
      read in it, \<open>existingTitles\<close> the set of titles seen so far (a list, read only by
      membership). It returns what the row gave, and the set as the row leaves it.\<close>
  "import_row e now cs existingTitles i row =
     (let cols = row_cols row
      in if length cols \<le> max (tI cs) (aI cs) then (Skipped, existingTitles)
         else
           (let ttl = cols ! tI cs
            in if ttl = [] then (Skipped, existingTitles)
               else if normalizedTitle ttl \<in> set existingTitles then (Skipped, existingTitles)
               else
                 (let existingTitles' = normalizedTitle ttl # existingTitles;
                      monthYear = or_empty cols (dateIdx cs);
                      dateObj = parseDate e (Some monthYear);
                      stat = (if \<not> hasMonth monthYear then ''suggested''
                              else if (case dateObj of None \<Rightarrow> False | Some t \<Rightarrow> now i < t)
                                   then ''scheduled'' else ''read'');
                      dateObj' = (case dateObj of
                                    None \<Rightarrow> None
                                  | Some t \<Rightarrow> setTime (t + int i * 1000))
                  in case toISOString dateObj' of
                       Inl x \<Rightarrow> (Threw x, existingTitles')
                     | Inr isoDate \<Rightarrow>
                         (Produced (row_bookData e cs cols monthYear stat isoDate),
                          existingTitles'))))"

record import_result =
  drafts :: "bookData list"
    \<comment> \<open>the documents handed to \<open>addDoc\<close>, in the order of the rows\<close>
  failure :: "exn option"
    \<comment> \<open>the exception that ended the import, if one did\<close>

fun import_rows ::
  "env \<Rightarrow> (nat \<Rightarrow> int) \<Rightarrow> columns \<Rightarrow> string list \<Rightarrow> nat \<Rightarrow> string list \<Rightarrow> import_result"
where
  \<comment> \<open>\<open>for (let i = ...; i < allRows.length; i++)\<close> over the rows from index \<open>i\<close> on.
      \<open>addDoc\<close> is taken to accept every document: where the store's client refuses one
      at once (a field that is \<open>undefined\<close>), the loop ends there and the documents
      handed over are a prefix of \<open>drafts\<close>.\<close>
  "import_rows e now cs existingTitles i [] = \<lparr> drafts = [], failure = None \<rparr>"
| "import_rows e now cs existingTitles i (row # rows) =
     (case import_row e now cs existingTitles i row of
        (Skipped, ex) \<Rightarrow> import_rows e now cs ex (Suc i) rows
      | (Threw x, ex) \<Rightarrow> \<lparr> drafts = [], failure = Some x \<rparr>
      | (Produced d, ex) \<Rightarrow>
          (let r = import_rows e now cs ex (Suc i) rows
           in r \<lparr> drafts := d # drafts r \<rparr>))"

definition parseSheet :: "env \<Rightarrow> (nat \<Rightarrow> int) \<Rightarrow> book list \<Rightarrow> string \<Rightarrow> import_result" where
  \<comment> \<open>The part of \<open>migrateFromGoogleSheet\<close> between the fetch of the text and
      \<open>Promise.all\<close>: \<open>text\<close> is the text fetched, \<open>books\<close> is \<open>myBooks\<close>.\<close>
  "parseSheet e now books text =
     (let allRows = split_char (CHR 0x0A) text
      in if length allRows < 2 then \<lparr> drafts = [], failure = Some (Error ''No data found'') \<rparr>
         else
           (let headers = header_cols (hd allRows);
                cs = find_columns headers;
                existingTitles = map (\<lambda>b. normalizedTitle (title b)) books
            in import_rows e now cs existingTitles 1 (tl allRows)))"

section \<open>addBookToFirebase and editBook\<close>

text \<open>
  An operation takes the state and what its dialogs and the store answer, and returns the
  state it leaves together with the exception that escapes it, if one does.
\<close>

definition alert :: "string \<Rightarrow> app_state \<Rightarrow> app_state" where
  "alert msg st = st \<lparr> alerts := alerts st @ [msg] \<rparr>"

definition or_null :: "jsfield \<Rightarrow> jsfield" where
  \<comment> \<open>\<open>x || null\<close>\<close>
  "or_null x = (case x of Str s \<Rightarrow> if s = [] then Null else Str s | _ \<Rightarrow> Null)"

definition truthy :: "jsfield \<Rightarrow> bool" where
  \<comment> \<open>\<open>!!x\<close>\<close>
  "truthy x = (case x of Str s \<Rightarrow> s \<noteq> [] | _ \<Rightarrow> False)"

definition authorConcat :: "author_field \<Rightarrow> string" where
  \<comment> \<open>\<open>Array.isArray(a) ? a.join(' ') : a\<close> inside a string concatenation, where
      \<open>Absent\<close> is \<open>undefined\<close>\<close>
  "authorConcat a = (case a of Names ns \<Rightarrow> join_str '' '' ns | Text t \<Rightarrow> t | Absent \<Rightarrow> ''undefined'')"

record add_io =
  confirmed :: bool
    \<comment> \<open>the answer to \<open>window.confirm\<close>\<close>
  today :: string
    \<comment> \<open>\<open>new Date().toLocaleDateString()\<close>\<close>
  nowTime :: int
    \<comment> \<open>the time value of the \<open>new Date()\<close> behind the default \<open>sortDate\<close>\<close>
  inputDate :: "string option"
  inputProposer :: "string option"
  inputComments :: "string option"
    \<comment> \<open>the answers to the three prompts; \<open>None\<close> is Cancel\<close>
  newId :: "string option"
    \<comment> \<open>\<open>addDoc\<close>: the id of the new document, or \<open>None\<close> when the write is rejected\<close>

definition addBookToFirebase ::
  "env \<Rightarrow> add_io \<Rightarrow> searchResult \<Rightarrow> string \<Rightarrow> app_state \<Rightarrow> app_state \<times> exn option"
where
  "addBookToFirebase e io bk stat st =
     (case currentUser st of
        None \<Rightarrow> (alert ''Please log in to add books!'' st \<lparr> showLogin := True \<rparr>, None)
      | Some u \<Rightarrow>
          if stat \<noteq> ''suggested'' \<and> \<not> isAdmin (currentUser st)
          then (alert ''Only admins can add to the Read or Scheduled lists.'' st, None)
          else if \<not> confirmed io then (st, None)
          else
            (let displayDate0 = (if stat = ''read'' then today io else []);
                 sortDate0 = nowTime io;
                 proposer0 = takeWhile (\<lambda>c. c \<noteq> CHR ''@'') (email u);
                 dated =
                   (case inputDate io of
                      None \<Rightarrow> Inr (displayDate0, sortDate0)
                    | Some d \<Rightarrow>
                        (case parseDate e (Some d) of
                           None \<Rightarrow> Inl RangeError
                         | Some t \<Rightarrow> Inr (d, if t \<noteq> 0 then t else sortDate0)))
             in case dated of
                  Inl x \<Rightarrow> (st, Some x)
                | Inr (dDate, sDate) \<Rightarrow>
                    (let what = sr_title bk @ '' '' @ authorConcat (sr_author_name bk);
                         newDoc =
                           \<lparr> title = sr_title bk,
                             author_name = sr_author_name bk,
                             coverUrl = or_null (sr_coverUrl bk),
                             isbn = or_null (sr_isbn bk),
                             status = stat,
                             sortDate = sDate,
                             displayDate = dDate,
                             proposer = (case inputProposer io of None \<Rightarrow> proposer0 | Some p \<Rightarrow> p),
                             comments = Str (case inputComments io of None \<Rightarrow> [] | Some c \<Rightarrow> c),
                             goodreadsLink = goodreads e what,
                             wcclsLink = wccls e what,
                             multcolibLink = multcolib e what,
                             attemptedV2 = truthy (sr_coverUrl bk) \<rparr>
                     in case newId io of
                          None \<Rightarrow> (alert ''Error adding book.'' st, None)
                        | Some k \<Rightarrow>
                            (alert ''Book added!'' st
                               \<lparr> store := (store st)(k \<mapsto> newDoc),
                                 activeTab := stat,
                                 searchQuery := [] \<rparr>,
                             None))))"

record edit_io =
  newDisplayDate :: "string option"
  newProposer :: "string option"
  newComments :: "string option"
    \<comment> \<open>the answers to the three prompts; \<open>None\<close> is Cancel\<close>
  updateOk :: bool
    \<comment> \<open>whether the store accepts the \<open>updateDoc\<close>\<close>

definition editBook :: "env \<Rightarrow> edit_io \<Rightarrow> book \<Rightarrow> app_state \<Rightarrow> app_state \<times> exn option" where
  \<comment> \<open>\<open>updateDoc\<close> changes the named fields of the document with the id \<open>book.key\<close>, and
      is rejected when there is no such document.\<close>
  "editBook e io bk st =
     (if currentUser st = None \<or> \<not> isAdmin (currentUser st) then (st, None)
      else
        (case newDisplayDate io of
           None \<Rightarrow> (st, None)
         | Some nd \<Rightarrow>
        (case newProposer io of
           None \<Rightarrow> (st, None)
         | Some np \<Rightarrow>
        (case newComments io of
           None \<Rightarrow> (st, None)
         | Some nc \<Rightarrow>
             (let newSortDate =
                    (if nd \<noteq> displayDate bk then
                       (case parseDate e (Some nd) of
                          None \<Rightarrow> Inl RangeError
                        | Some t \<Rightarrow> Inr (if t \<noteq> 0 then t else sortDate bk))
                     else Inr (sortDate bk))
              in case newSortDate of
                   Inl x \<Rightarrow> (st, Some x)
                 | Inr sd \<Rightarrow>
                     (case store st (key bk) of
                        None \<Rightarrow> (alert ''Error updating book.'' st, None)
                      | Some d \<Rightarrow>
                          if updateOk io
                          then (st \<lparr> store := (store st)(key bk \<mapsto>
                                       d \<lparr> displayDate := nd, proposer := np,
                                           comments := Str nc, sortDate := sd \<rparr>) \<rparr>,
                                None)
                          else (alert ''Error updating book.'' st, None)))))))"

section \<open>Notions used in the statements\<close>

definition isFourDigitYear :: "string \<Rightarrow> bool" where
  \<comment> \<open>the words of the specification, "the last token as a 4-digit year": a token of
      exactly four decimal digits\<close>
  "isFourDigitYear tok = (length tok = 4 \<and> list_all (isDigitOf 10) tok)"

definition row_offset :: "env \<Rightarrow> bookData \<Rightarrow> int" where
  \<comment> \<open>what the import added to the parsed time of a draft\<close>
  "row_offset e d = sortDate d - (case parseDate e (Some (displayDate d)) of None \<Rightarrow> 0 | Some t \<Rightarrow> t)"

definition shown_titles :: "display \<Rightarrow> string list" where
  \<comment> \<open>the titles of a displayed list, in its order\<close>
  "shown_titles d = (case d of SearchList rs \<Rightarrow> map sr_title rs | BookList bs \<Rightarrow> map title bs)"

definition dq :: char where
  \<comment> \<open>the double quote\<close>
  "dq = CHR 0x22"

definition quoted :: "string \<Rightarrow> string" where
  "quoted s = dq # s @ [dq]"

section \<open>Sample inputs\<close>

text \<open>
  Concrete values on which the properties below are evaluated. \<open>strict_env\<close> is a browser
  in the UTC time zone whose own date parser reads none of the labels used here (none of
  them is in the ISO format), so that \<open>parseDate\<close> reaches its "Month Year" pattern.
\<close>

definition strict_env :: env where
  "strict_env = \<lparr> Date_parse = (\<lambda>s. None), UTC = (\<lambda>t. t), encodeURIComponent = (\<lambda>s. s) \<rparr>"

definition admin_user :: user where
  "admin_user = \<lparr> email = ''Sharon@TutorShiba.com'' \<rparr>"

definition member_user :: user where
  "member_user = \<lparr> email = ''reader@example.org'' \<rparr>"

definition sample_doc :: bookData where
  "sample_doc =
     \<lparr> title = ''Piranesi'', author_name = Names [''Susanna Clarke''], coverUrl = Null,
       isbn = Str ''9781635575631'', status = ''read'', sortDate = 1583020801000,
       displayDate = ''March 2020'', proposer = ''Ana'', comments = Str [],
       goodreadsLink = [], wcclsLink = [], multcolibLink = [], attemptedV2 = False \<rparr>"

definition sample_book :: book where
  "sample_book =
     \<lparr> title = ''Piranesi'', author_name = Names [''Susanna Clarke''], coverUrl = Null,
       isbn = Str ''9781635575631'', status = ''read'', sortDate = 1583020801000,
       displayDate = ''March 2020'', proposer = ''Ana'', comments = Str [],
       goodreadsLink = [], wcclsLink = [], multcolibLink = [], attemptedV2 = False,
       key = ''doc1'' \<rparr>"

definition sample_state :: "user option \<Rightarrow> app_state" where
  "sample_state u =
     \<lparr> currentUser = u, showLogin = False, activeTab = ''read'', searchQuery = [],
       filterQuery = [], searchResults = [], isLoading = False, myBooks = [sample_book],
       store = [''doc1'' \<mapsto> sample_doc], alerts = [] \<rparr>"

definition sample_result :: searchResult where
  "sample_result =
     \<lparr> sr_key = ''vol1'', sr_title = ''Babel'', sr_author_name = Names [''R. F. Kuang''],
       sr_coverUrl = Null, sr_isbn = Null, sr_goodreadsLink = [], sr_wcclsLink = [],
       sr_multcolibLink = [] \<rparr>"

definition sample_add_io :: add_io where
  "sample_add_io =
     \<lparr> confirmed = True, today = ''11/3/2026'', nowTime = 1793700000000,
       inputDate = Some ''Sep 2026'', inputProposer = Some ''Ana'', inputComments = Some [],
       newId = Some ''doc2'' \<rparr>"

definition sample_edit_io :: edit_io where
  "sample_edit_io =
     \<lparr> newDisplayDate = Some ''April 2020'', newProposer = Some ''Ben'',
       newComments = Some ''reread'', updateOk = True \<rparr>"

definition edit_io_with :: "string option \<Rightarrow> edit_io" where
  "edit_io_with nd = sample_edit_io \<lparr> newDisplayDate := nd \<rparr>"

definition shelf_book :: "string \<Rightarrow> string \<Rightarrow> string \<Rightarrow> string \<Rightarrow> int \<Rightarrow> book" where
  "shelf_book k t a s d =
     \<lparr> title = t, author_name = Names [a], coverUrl = Null, isbn = Null, status = s,
       sortDate = d, displayDate = [], proposer = [], comments = Str [],
       goodreadsLink = [], wcclsLink = [], multcolibLink = [], attemptedV2 = False, key = k \<rparr>"

definition shelf :: "book list" where
  "shelf =
     [shelf_book ''k1'' ''Dune'' ''Frank Herbert'' ''read'' 1000,
      shelf_book ''k2'' ''Emma'' ''Jane Austen'' ''scheduled'' 9000,
      shelf_book ''k3'' ''Ulysses'' ''James Joyce'' ''read'' 3000,
      shelf_book ''k4'' ''Beloved'' ''Toni Morrison'' ''scheduled'' 7000,
      shelf_book ''k5'' ''Persuasion'' ''Jane Austen'' ''read'' 2000]"

definition shelf_state :: "string \<Rightarrow> string \<Rightarrow> app_state" where
  "shelf_state tab q =
     \<lparr> currentUser = None, showLogin = False, activeTab = tab, searchQuery = [],
       filterQuery = q, searchResults = [sample_result], isLoading = False, myBooks = shelf,
       store = Map.empty, alerts = [] \<rparr>"

definition coauthored :: book where
  \<comment> \<open>a book with two authors\<close>
  "coauthored =
     \<lparr> title = ''Good Omens'', author_name = Names [''Neil Gaiman'', ''Terry Pratchett''],
       coverUrl = Null, isbn = Null, status = ''read'', sortDate = 5000, displayDate = [],
       proposer = [], comments = Str [], goodreadsLink = [], wcclsLink = [],
       multcolibLink = [], attemptedV2 = False, key = ''k6'' \<rparr>"

definition duo_state :: "string \<Rightarrow> app_state" where
  \<comment> \<open>the read tab over the shelf and the book with two authors, with a filter text\<close>
  "duo_state q = (shelf_state ''read'' q) \<lparr> myBooks := coauthored # shelf \<rparr>"

definition sample_sheet :: string where
  "sample_sheet =
     ''Title,Author,Month'' @ [CHR 0x0A] @
     ''Dune,Frank Herbert,March 2020'' @ [CHR 0x0A] @
     '' dune ,F. Herbert,April 2020'' @ [CHR 0x0A] @
     ''Emma,Jane Austen,'' @ [CHR 0x0A] @
     ''PIRANESI,Susanna Clarke,Dec 2019'' @ [CHR 0x0A] @
     ''Babel,R. F. Kuang,Dec 2099'' @ [CHR 0x0A]"

definition sample_now :: "nat \<Rightarrow> int" where
  \<comment> \<open>3 November 2026, 09:00 UTC, and one millisecond more for every row\<close>
  "sample_now i = 1793696400000 + int i"

definition sample_columns :: columns where
  "sample_columns = find_columns (header_cols ''Title,Author,Month'')"

definition dune_row :: string where
  "dune_row = ''Dune,Frank Herbert,March 2020''"

definition dune_again_row :: string where
  "dune_again_row = '' dune ,F. Herbert,April 2020''"

definition dune_draft :: bookData where
  "dune_draft =
     row_bookData strict_env sample_columns (row_cols dune_row) ''March 2020'' ''read'' 1583020801000"

definition example_line :: string where
  "example_line = quoted ''Smith, John'' @ '','' @ quoted ''Title, With Comma'' @ '',2020''"

definition iso_env :: env where
  \<comment> \<open>as \<open>strict_env\<close>, with a parser that reads the one ISO string used below\<close>
  "iso_env = strict_env \<lparr> Date_parse :=
     (\<lambda>s. if s = ''2025-09-01T00:00:00.000Z'' then Some 1756684800000 else None) \<rparr>"

definition tie_sheet :: "string \<Rightarrow> string" where
  \<comment> \<open>a sheet of two rows with the same date text\<close>
  "tie_sheet month =
     ''Title,Author,Month'' @ [CHR 0x0A] @
     ''Abel,X,'' @ month @ [CHR 0x0A] @
     ''Baker,Y,'' @ month"

definition tie_drafts :: "string \<Rightarrow> bookData list" where
  "tie_drafts month = drafts (parseSheet strict_env sample_now [] (tie_sheet month))"

definition tie_state :: "string \<Rightarrow> string \<Rightarrow> app_state" where
  \<comment> \<open>the state after the import of \<open>tie_sheet\<close> into an empty collection: the snapshot
      comes in descending order of \<open>sortDate\<close>\<close>
  "tie_state month tab =
     \<lparr> currentUser = Some admin_user, showLogin = False, activeTab = tab, searchQuery = [],
       filterQuery = [], searchResults = [], isLoading = False,
       myBooks = rev (map2 snapshot_book [''k1'', ''k2''] (tie_drafts month)),
       store = map_of (zip [''k1'', ''k2''] (tie_drafts month)), alerts = [] \<rparr>"

section \<open>Properties\<close>

subsection \<open>Adding and editing\<close>

lemma isAdmin_None: "isAdmin None = False"
  by (simp add: isAdmin_def)

text \<open>
  C5. \<open>addBookToFirebase\<close> with a status other than "suggested", called while nobody is
  signed in or the user is not an admin, shows an authorization message and leaves the
  store as it was; and with nobody signed in it does so for every status: it shows the
  log-in message, opens the log-in form and writes nothing.
\<close>

theorem addBookToFirebase_rejected:
  "(stat \<noteq> ''suggested'' \<and> (currentUser st = None \<or> \<not> isAdmin (currentUser st)) \<longrightarrow>
      store (fst (addBookToFirebase e io bk stat st)) = store st \<and>
      snd (addBookToFirebase e io bk stat st) = None \<and>
      alerts (fst (addBookToFirebase e io bk stat st)) =
        alerts st @ [if currentUser st = None then ''Please log in to add books!''
                     else ''Only admins can add to the Read or Scheduled lists.'']) \<and>
   (currentUser st = None \<longrightarrow>
      addBookToFirebase e io bk stat st =
        (st \<lparr> alerts := alerts st @ [''Please log in to add books!''], showLogin := True \<rparr>, None))"
  by (auto simp: addBookToFirebase_def alert_def isAdmin_None split: option.splits)

lemma member_not_admin: "\<not> isAdmin (Some member_user)"
  by code_simp


theorem addBookToFirebase_rejected_witness:
  "''read'' \<noteq> ''suggested'' \<and> \<not> isAdmin (currentUser (sample_state (Some member_user))) \<and>
   store (fst (addBookToFirebase strict_env sample_add_io sample_result ''read''
                 (sample_state (Some member_user)))) = store (sample_state (Some member_user)) \<and>
   alerts (fst (addBookToFirebase strict_env sample_add_io sample_result ''read''
                 (sample_state (Some member_user)))) =
     [''Only admins can add to the Read or Scheduled lists.''] \<and>
   currentUser (sample_state None) = None \<and>
   alerts (fst (addBookToFirebase strict_env sample_add_io sample_result ''suggested''
                 (sample_state None))) = [''Please log in to add books!''] \<and>
   store (fst (addBookToFirebase strict_env sample_add_io sample_result ''suggested''
                 (sample_state None))) = store (sample_state None)"
proof -
  have h1: "''read'' \<noteq> ''suggested''" by simp
  have h2: "\<not> isAdmin (currentUser (sample_state (Some member_user)))"
    using member_not_admin by (simp add: sample_state_def)
  have h3: "currentUser (sample_state None) = None" by (simp add: sample_state_def)
  have h4: "currentUser (sample_state (Some member_user)) \<noteq> None" by (simp add: sample_state_def)
  have a: "alerts (sample_state u) = []" for u by (simp add: sample_state_def)
  show ?thesis
    using h1 h2 h3 h4
      addBookToFirebase_rejected [of "''read''" "sample_state (Some member_user)" strict_env
        sample_add_io sample_result]
      addBookToFirebase_rejected [of "''suggested''" "sample_state None" strict_env
        sample_add_io sample_result]
    by (simp add: a)
qed

lemma editBook_store_cases:
  "store (fst (editBook e io bk st)) = store st \<or>
   (\<exists>d nd np nc sd. store st (key bk) = Some d \<and>
      store (fst (editBook e io bk st)) =
        (store st)(key bk \<mapsto> d \<lparr> displayDate := nd, proposer := np, comments := nc, sortDate := sd \<rparr>))"
  by (auto simp: editBook_def alert_def Let_def split: option.splits sum.splits)

text \<open>
  C7. \<open>editBook\<close> changes no field of a stored document other than \<open>displayDate\<close>,
  \<open>proposer\<close>, \<open>comments\<close> and \<open>sortDate\<close> (so \<open>title\<close>, \<open>author_name\<close>, \<open>isbn\<close> and
  \<open>status\<close> stay), and it adds and removes no document; called without an admin it does
  nothing; and when one of the three prompts is cancelled it does nothing.
\<close>

theorem editBook_frame:
  "(\<forall>k. case store (fst (editBook e io bk st)) k of
          None \<Rightarrow> store st k = None
        | Some d' \<Rightarrow>
            (\<exists>d. store st k = Some d \<and>
                 title d' = title d \<and> author_name d' = author_name d \<and>
                 isbn d' = isbn d \<and> status d' = status d \<and>
                 d' = d \<lparr> displayDate := displayDate d', proposer := proposer d',
                          comments := comments d', sortDate := sortDate d' \<rparr>)) \<and>
   (currentUser st = None \<or> \<not> isAdmin (currentUser st) \<longrightarrow> editBook e io bk st = (st, None)) \<and>
   (newDisplayDate io = None \<or> newProposer io = None \<or> newComments io = None \<longrightarrow>
      editBook e io bk st = (st, None))"
proof (intro conjI allI)
  fix k
  show "case store (fst (editBook e io bk st)) k of
          None \<Rightarrow> store st k = None
        | Some d' \<Rightarrow>
            (\<exists>d. store st k = Some d \<and>
                 title d' = title d \<and> author_name d' = author_name d \<and>
                 isbn d' = isbn d \<and> status d' = status d \<and>
                 d' = d \<lparr> displayDate := displayDate d', proposer := proposer d',
                          comments := comments d', sortDate := sortDate d' \<rparr>)"
    using editBook_store_cases [of e io bk st]
    by (auto split: option.splits if_splits)
next
  show "currentUser st = None \<or> \<not> isAdmin (currentUser st) \<longrightarrow> editBook e io bk st = (st, None)"
    by (simp add: editBook_def)
next
  show "newDisplayDate io = None \<or> newProposer io = None \<or> newComments io = None \<longrightarrow>
      editBook e io bk st = (st, None)"
    by (auto simp: editBook_def split: option.splits)
qed



lemma sample_stored: "store (sample_state u) (key sample_book) = Some sample_doc"
  by (simp add: sample_state_def sample_book_def)

lemma sample_key: "key sample_book = ''doc1''"
  by (simp add: sample_book_def)

lemma sample_doc_title: "title sample_doc = ''Piranesi'' \<and> status sample_doc = ''read''"
  by (simp add: sample_doc_def)

theorem editBook_frame_witness:
  "\<not> isAdmin (currentUser (sample_state (Some member_user))) \<and>
   editBook strict_env sample_edit_io sample_book (sample_state (Some member_user)) =
     (sample_state (Some member_user), None) \<and>
   newDisplayDate (edit_io_with None) = None \<and>
   editBook strict_env (edit_io_with None) sample_book (sample_state (Some admin_user)) =
     (sample_state (Some admin_user), None) \<and>
   (\<exists>d'. store (fst (editBook strict_env sample_edit_io sample_book
                       (sample_state (Some admin_user)))) ''doc1'' = Some d' \<and>
         title d' = ''Piranesi'' \<and> status d' = ''read'')"
proof -
  have h1: "\<not> isAdmin (currentUser (sample_state (Some member_user)))"
    using member_not_admin by (simp add: sample_state_def)
  have h2: "newDisplayDate (edit_io_with None) = None"
    by (simp add: edit_io_with_def)
  note f1 = editBook_frame [where e = strict_env and io = sample_edit_io and bk = sample_book
        and st = "sample_state (Some member_user)"]
  note f2 = editBook_frame [where e = strict_env and io = "edit_io_with None" and bk = sample_book
        and st = "sample_state (Some admin_user)"]
  note f3 = editBook_frame [where e = strict_env and io = sample_edit_io and bk = sample_book
        and st = "sample_state (Some admin_user)"]
  have c1: "editBook strict_env sample_edit_io sample_book (sample_state (Some member_user)) =
     (sample_state (Some member_user), None)"
    using f1 h1 by blast
  have c2: "editBook strict_env (edit_io_with None) sample_book (sample_state (Some admin_user)) =
     (sample_state (Some admin_user), None)"
    using f2 h2 by blast
  have s: "store (sample_state (Some admin_user)) ''doc1'' = Some sample_doc"
    using sample_stored [of "Some admin_user"] by (simp only: sample_key)
  have "case store (fst (editBook strict_env sample_edit_io sample_book
                       (sample_state (Some admin_user)))) ''doc1'' of
          None \<Rightarrow> store (sample_state (Some admin_user)) ''doc1'' = None
        | Some d' \<Rightarrow>
            (\<exists>d. store (sample_state (Some admin_user)) ''doc1'' = Some d \<and>
                 title d' = title d \<and> author_name d' = author_name d \<and>
                 isbn d' = isbn d \<and> status d' = status d \<and>
                 d' = d \<lparr> displayDate := displayDate d', proposer := proposer d',
                          comments := comments d', sortDate := sortDate d' \<rparr>)"
    using f3 by blast
  then have c3: "\<exists>d'. store (fst (editBook strict_env sample_edit_io sample_book
                       (sample_state (Some admin_user)))) ''doc1'' = Some d' \<and>
         title d' = ''Piranesi'' \<and> status d' = ''read''"
    using sample_doc_title by (cases "store (fst (editBook strict_env sample_edit_io sample_book
                       (sample_state (Some admin_user)))) ''doc1''") (auto simp: s)
  from h1 c1 h2 c2 c3 show ?thesis by blast
qed







subsection \<open>The list view\<close>

lemma startsWith_iff: "startsWith s q \<longleftrightarrow> (\<exists>r. s = q @ r)"
  unfolding startsWith_def
  by (metis append_eq_conv_conj)

lemma includes_str_iff: "includes_str s q \<longleftrightarrow> (\<exists>p r. s = p @ q @ r)"
proof (induction s)
  case Nil
  then show ?case by simp
next
  case (Cons c cs)
  have "(\<exists>p r. c # cs = p @ q @ r) \<longleftrightarrow> (\<exists>r. c # cs = q @ r) \<or> (\<exists>p r. cs = p @ q @ r)"
  proof
    assume "\<exists>p r. c # cs = p @ q @ r"
    then obtain p r where pr: "c # cs = p @ q @ r" by blast
    show "(\<exists>r. c # cs = q @ r) \<or> (\<exists>p r. cs = p @ q @ r)"
    proof (cases p)
      case Nil
      with pr show ?thesis by auto
    next
      case (Cons a p')
      with pr have "cs = p' @ q @ r" by simp
      then show ?thesis by blast
    qed
  next
    assume "(\<exists>r. c # cs = q @ r) \<or> (\<exists>p r. cs = p @ q @ r)"
    then show "\<exists>p r. c # cs = p @ q @ r"
    proof
      assume "\<exists>r. c # cs = q @ r"
      then obtain r where "c # cs = [] @ q @ r" by auto
      then show ?thesis by blast
    next
      assume "\<exists>p r. cs = p @ q @ r"
      then obtain p r where "c # cs = (c # p) @ q @ r" by auto
      then show ?thesis by blast
    qed
  qed
  with Cons.IH show ?case by (simp add: startsWith_iff)
qed

lemma includes_str_empty: "includes_str s []"
  by (cases s) (simp_all add: startsWith_def)

lemma insert_cmp_asc: "insert_cmp (\<lambda>a b. f a - f b) x ys = insort_key f x ys"
  for f :: "'a \<Rightarrow> int"
  by (induction ys) auto

lemma insert_cmp_desc: "insert_cmp (\<lambda>a b. f b - f a) x ys = insort_key (\<lambda>a. - f a) x ys"
  for f :: "'a \<Rightarrow> int"
  by (induction ys) auto

lemma Array_sort_asc: "Array_sort (\<lambda>a b. f a - f b) xs = sort_key f xs"
  for f :: "'a \<Rightarrow> int"
  by (induction xs) (simp_all add: Array_sort_def insert_cmp_asc sort_key_def)

lemma Array_sort_desc: "Array_sort (\<lambda>a b. f b - f a) xs = sort_key (\<lambda>a. - f a) xs"
  for f :: "'a \<Rightarrow> int"
  by (induction xs) (simp_all add: Array_sort_def insert_cmp_desc sort_key_def)

lemma sorted_neg_iff: "sorted (map (\<lambda>a. - f a) xs) \<longleftrightarrow> sorted_wrt (\<lambda>x y. y \<le> x) (map f xs)"
  for f :: "'a \<Rightarrow> int"
  by (simp add: sorted_wrt_map)

lemma getDisplayBooks_lists:
  assumes "activeTab st \<noteq> ''search''"
  shows "getDisplayBooks st =
     BookList (sort_key (\<lambda>b. if activeTab st = ''scheduled'' then sortDate b else - sortDate b)
        (filter (matchesFilter (activeTab st) (filterQuery st)) (myBooks st)))"
  using assms by (simp add: getDisplayBooks_def Array_sort_asc Array_sort_desc Let_def)

text \<open>
  C4. \<open>getDisplayBooks\<close> on the search tab returns the search results as they are; on the
  scheduled tab the books it returns are in non-decreasing order of \<open>sortDate\<close>, and on
  every other tab (read and suggested among them) in non-increasing order.
\<close>

theorem getDisplayBooks_sorted:
  "(activeTab st = ''search'' \<longrightarrow> getDisplayBooks st = SearchList (searchResults st)) \<and>
   (activeTab st = ''scheduled'' \<longrightarrow>
      (\<exists>bs. getDisplayBooks st = BookList bs \<and> sorted_wrt (\<lambda>x y. x \<le> y) (map sortDate bs))) \<and>
   (activeTab st \<noteq> ''search'' \<and> activeTab st \<noteq> ''scheduled'' \<longrightarrow>
      (\<exists>bs. getDisplayBooks st = BookList bs \<and> sorted_wrt (\<lambda>x y. y \<le> x) (map sortDate bs)))"
proof (intro conjI impI)
  assume "activeTab st = ''search''"
  then show "getDisplayBooks st = SearchList (searchResults st)"
    by (simp add: getDisplayBooks_def)
next
  assume t: "activeTab st = ''scheduled''"
  then have "activeTab st \<noteq> ''search''" by simp
  from getDisplayBooks_lists [OF this] t
  show "\<exists>bs. getDisplayBooks st = BookList bs \<and> sorted_wrt (\<lambda>x y. x \<le> y) (map sortDate bs)"
    by (simp add: sorted_sort_key [unfolded sorted_wrt_map] sorted_wrt_map)
next
  assume t: "activeTab st \<noteq> ''search'' \<and> activeTab st \<noteq> ''scheduled''"
  have "sorted (map (\<lambda>a. - sortDate a) (sort_key (\<lambda>a. - sortDate a) xs))" for xs :: "book list"
    by (rule sorted_sort_key)
  then have "sorted_wrt (\<lambda>x y. y \<le> x) (map sortDate (sort_key (\<lambda>a. - sortDate a) xs))"
    for xs :: "book list"
    by (simp only: sorted_neg_iff)
  with getDisplayBooks_lists [of st] t
  show "\<exists>bs. getDisplayBooks st = BookList bs \<and> sorted_wrt (\<lambda>x y. y \<le> x) (map sortDate bs)"
    by simp
qed

lemma join_str_spelled:
  "join_str sep ns = (case ns of [] \<Rightarrow> [] | n # ms \<Rightarrow> n @ concat (map (\<lambda>m. sep @ m) ms))"
proof (induction sep ns rule: join_str.induct)
  case (1 sep)
  then show ?case by simp
next
  case (2 sep x)
  then show ?case by simp
next
  case (3 sep x y zs)
  then show ?case by simp
qed

lemma authorText_spelled:
  "authorText a =
     (case a of
        Names ns \<Rightarrow> (case ns of [] \<Rightarrow> [] | n # ms \<Rightarrow> n @ concat (map (\<lambda>m. '' '' @ m) ms))
      | Text t \<Rightarrow> t
      | Absent \<Rightarrow> [])"
  by (simp add: authorText_def join_str_spelled split: author_field.split)

text \<open>
  C8. On a tab other than search, \<open>getDisplayBooks\<close> returns exactly the books of the
  snapshot, each as often as it occurs there, whose status is the tab and whose title or
  author text contains the filter text as a contiguous run, all three in lower case. The
  author text of an array of names is the first name followed by every further name with
  one space before it (the names joined by a space); of a single string it is that string,
  and of a missing value it is empty. With an empty filter text the result is all the books
  of that status, and when no title and no author text contains the filter text the result
  is empty.
\<close>

theorem getDisplayBooks_filter:
  assumes "activeTab st \<noteq> ''search''"
  shows "\<exists>bs. getDisplayBooks st = BookList bs \<and>
     mset bs = filter_mset
       (\<lambda>b. status b = activeTab st \<and>
            ((\<exists>p r. toLowerCase (title b) = p @ toLowerCase (filterQuery st) @ r) \<or>
             (\<exists>p r. toLowerCase
                      (case author_name b of
                         Names ns \<Rightarrow>
                           (case ns of [] \<Rightarrow> [] | n # ms \<Rightarrow> n @ concat (map (\<lambda>m. '' '' @ m) ms))
                       | Text t \<Rightarrow> t
                       | Absent \<Rightarrow> []) = p @ toLowerCase (filterQuery st) @ r)))
       (mset (myBooks st)) \<and>
     (filterQuery st = [] \<longrightarrow> mset bs = filter_mset (\<lambda>b. status b = activeTab st) (mset (myBooks st))) \<and>
     ((\<forall>b \<in> set (myBooks st).
         \<not> (\<exists>p r. toLowerCase (title b) = p @ toLowerCase (filterQuery st) @ r) \<and>
         \<not> (\<exists>p r. toLowerCase
                      (case author_name b of
                         Names ns \<Rightarrow>
                           (case ns of [] \<Rightarrow> [] | n # ms \<Rightarrow> n @ concat (map (\<lambda>m. '' '' @ m) ms))
                       | Text t \<Rightarrow> t
                       | Absent \<Rightarrow> []) = p @ toLowerCase (filterQuery st) @ r))
        \<longrightarrow> bs = [])"
proof -
  let ?k = "\<lambda>b. if activeTab st = ''scheduled'' then sortDate b else - sortDate b"
  let ?bs = "sort_key ?k (filter (matchesFilter (activeTab st) (filterQuery st)) (myBooks st))"
  let ?P = "\<lambda>b::book. status b = activeTab st \<and>
            ((\<exists>p r. toLowerCase (title b) = p @ toLowerCase (filterQuery st) @ r) \<or>
             (\<exists>p r. toLowerCase
                      (case author_name b of
                         Names ns \<Rightarrow>
                           (case ns of [] \<Rightarrow> [] | n # ms \<Rightarrow> n @ concat (map (\<lambda>m. '' '' @ m) ms))
                       | Text t \<Rightarrow> t
                       | Absent \<Rightarrow> []) = p @ toLowerCase (filterQuery st) @ r))"
  have g: "getDisplayBooks st = BookList ?bs"
    by (rule getDisplayBooks_lists [OF assms])
  have p: "matchesFilter (activeTab st) (filterQuery st) = ?P"
    by (rule ext) (simp only: matchesFilter_def includes_str_iff authorText_spelled)
  have m: "mset ?bs = filter_mset ?P (mset (myBooks st))"
    unfolding p [symmetric] by simp
  have e: "mset ?bs = filter_mset (\<lambda>b. status b = activeTab st) (mset (myBooks st))"
    if "filterQuery st = []"
  proof -
    have "matchesFilter (activeTab st) (filterQuery st) = (\<lambda>b. status b = activeTab st)"
      using that by (intro ext) (simp add: matchesFilter_def toLowerCase_def includes_str_empty)
    then show ?thesis by simp
  qed
  have n: "?bs = []"
    if "\<forall>b \<in> set (myBooks st).
         \<not> (\<exists>p r. toLowerCase (title b) = p @ toLowerCase (filterQuery st) @ r) \<and>
         \<not> (\<exists>p r. toLowerCase
                      (case author_name b of
                         Names ns \<Rightarrow>
                           (case ns of [] \<Rightarrow> [] | n # ms \<Rightarrow> n @ concat (map (\<lambda>m. '' '' @ m) ms))
                       | Text t \<Rightarrow> t
                       | Absent \<Rightarrow> []) = p @ toLowerCase (filterQuery st) @ r)"
  proof -
    from that have "\<forall>b \<in> set (myBooks st). \<not> ?P b" by blast
    then have "filter (matchesFilter (activeTab st) (filterQuery st)) (myBooks st) = []"
      unfolding p by (simp add: filter_empty_conv)
    then show ?thesis by simp
  qed
  from g m e n show ?thesis by (intro exI [of _ ?bs] conjI impI) assumption+
qed

lemma shelf_state_fields:
  "activeTab (shelf_state tab q) = tab" "filterQuery (shelf_state tab q) = q"
  "myBooks (shelf_state tab q) = shelf" "searchResults (shelf_state tab q) = [sample_result]"
  by (simp_all add: shelf_state_def)

lemma shelf_scheduled:
  "shown_titles (getDisplayBooks (shelf_state ''scheduled'' [])) = [''Beloved'', ''Emma'']"
  by code_simp

lemma shelf_read:
  "shown_titles (getDisplayBooks (shelf_state ''read'' [])) = [''Ulysses'', ''Persuasion'', ''Dune'']"
  by code_simp

lemma shelf_austen:
  "shown_titles (getDisplayBooks (shelf_state ''read'' ''AUSTEN'')) = [''Persuasion'']"
  by code_simp

theorem getDisplayBooks_sorted_witness:
  "getDisplayBooks (shelf_state ''search'' []) = SearchList [sample_result] \<and>
   (\<exists>bs. getDisplayBooks (shelf_state ''scheduled'' []) = BookList bs \<and>
         sorted_wrt (\<lambda>x y. x \<le> y) (map sortDate bs) \<and> map title bs = [''Beloved'', ''Emma'']) \<and>
   (\<exists>bs. getDisplayBooks (shelf_state ''read'' []) = BookList bs \<and>
         sorted_wrt (\<lambda>x y. y \<le> x) (map sortDate bs) \<and>
         map title bs = [''Ulysses'', ''Persuasion'', ''Dune''])"
proof -
  note t = getDisplayBooks_sorted [of "shelf_state tab []" for tab, unfolded shelf_state_fields]
  have a: "getDisplayBooks (shelf_state ''search'' []) = SearchList [sample_result]"
    using t [of "''search''"] by simp
  have b: "\<exists>bs. getDisplayBooks (shelf_state ''scheduled'' []) = BookList bs \<and>
         sorted_wrt (\<lambda>x y. x \<le> y) (map sortDate bs)"
    using t [of "''scheduled''"] by simp
  have c: "\<exists>bs. getDisplayBooks (shelf_state ''read'' []) = BookList bs \<and>
         sorted_wrt (\<lambda>x y. y \<le> x) (map sortDate bs)"
    using t [of "''read''"] by simp
  from b shelf_scheduled have b': "\<exists>bs. getDisplayBooks (shelf_state ''scheduled'' []) = BookList bs \<and>
         sorted_wrt (\<lambda>x y. x \<le> y) (map sortDate bs) \<and> map title bs = [''Beloved'', ''Emma'']"
    by (auto simp: shown_titles_def)
  from c shelf_read have c': "\<exists>bs. getDisplayBooks (shelf_state ''read'' []) = BookList bs \<and>
         sorted_wrt (\<lambda>x y. y \<le> x) (map sortDate bs) \<and>
         map title bs = [''Ulysses'', ''Persuasion'', ''Dune'']"
    by (auto simp: shown_titles_def)
  from a b' c' show ?thesis by (intro conjI)
qed

lemma shelf_no_zzz:
  "\<forall>b \<in> set (myBooks (shelf_state ''read'' ''zzz'')).
      \<not> includes_str (toLowerCase (title b)) (toLowerCase (filterQuery (shelf_state ''read'' ''zzz''))) \<and>
      \<not> includes_str (toLowerCase (authorText (author_name b)))
           (toLowerCase (filterQuery (shelf_state ''read'' ''zzz'')))"
  by code_simp

lemma duo_state_fields:
  "activeTab (duo_state q) = ''read''" "filterQuery (duo_state q) = q"
  "myBooks (duo_state q) = coauthored # shelf"
  by (simp_all add: duo_state_def shelf_state_def)

lemma duo_across_names:
  "toLowerCase (''Neil Gaiman'' @ concat (map (\<lambda>m. '' '' @ m) [''Terry Pratchett''])) =
     ''neil '' @ toLowerCase ''Gaiman Terry'' @ '' pratchett''"
  by code_simp

lemma duo_shown:
  "shown_titles (getDisplayBooks (duo_state ''Gaiman Terry'')) = [''Good Omens'']"
  by code_simp

lemma duo_no_match:
  "\<forall>b \<in> set (myBooks (duo_state ''GaimanTerry'')).
      \<not> includes_str (toLowerCase (title b)) (toLowerCase (filterQuery (duo_state ''GaimanTerry''))) \<and>
      \<not> includes_str (toLowerCase (authorText (author_name b)))
           (toLowerCase (filterQuery (duo_state ''GaimanTerry'')))"
  by code_simp

theorem getDisplayBooks_filter_witness:
  "activeTab (shelf_state ''read'' ''zzz'') \<noteq> ''search'' \<and>
   getDisplayBooks (shelf_state ''read'' ''zzz'') = BookList [] \<and>
   (\<exists>bs. getDisplayBooks (shelf_state ''read'' []) = BookList bs \<and>
         mset bs = filter_mset (\<lambda>b. status b = ''read'') (mset shelf)) \<and>
   (\<exists>bs. getDisplayBooks (shelf_state ''read'' ''AUSTEN'') = BookList bs \<and>
         map title bs = [''Persuasion'']) \<and>
   author_name coauthored = Names [''Neil Gaiman'', ''Terry Pratchett''] \<and>
   (\<exists>bs. getDisplayBooks (duo_state ''Gaiman Terry'') = BookList bs \<and>
         coauthored \<in> set bs \<and> map title bs = [''Good Omens'']) \<and>
   getDisplayBooks (duo_state ''GaimanTerry'') = BookList []"
proof -
  have h: "activeTab (shelf_state ''read'' q) \<noteq> ''search''" for q
    by (simp add: shelf_state_fields)
  have h': "activeTab (duo_state q) \<noteq> ''search''" for q
    by (simp add: duo_state_fields)
  have a: "getDisplayBooks (shelf_state ''read'' ''zzz'') = BookList []"
    using getDisplayBooks_filter [OF h [of "''zzz''"]]
      shelf_no_zzz [unfolded includes_str_iff authorText_spelled]
    by blast
  have b: "\<exists>bs. getDisplayBooks (shelf_state ''read'' []) = BookList bs \<and>
         mset bs = filter_mset (\<lambda>b. status b = ''read'') (mset shelf)"
    using getDisplayBooks_filter [OF h [of "[]"]] unfolding shelf_state_fields by blast
  have c: "\<exists>bs. getDisplayBooks (shelf_state ''read'' ''AUSTEN'') = BookList bs \<and>
         map title bs = [''Persuasion'']"
    using getDisplayBooks_filter [OF h [of "''AUSTEN''"]] shelf_austen
    by (auto simp: shown_titles_def)
  have d: "author_name coauthored = Names [''Neil Gaiman'', ''Terry Pratchett'']"
    by (simp add: coauthored_def)
  obtain bs where bs: "getDisplayBooks (duo_state ''Gaiman Terry'') = BookList bs"
    and ms: "mset bs = filter_mset
       (\<lambda>b. status b = ''read'' \<and>
            ((\<exists>p r. toLowerCase (title b) = p @ toLowerCase ''Gaiman Terry'' @ r) \<or>
             (\<exists>p r. toLowerCase
                      (case author_name b of
                         Names ns \<Rightarrow>
                           (case ns of [] \<Rightarrow> [] | n # ms \<Rightarrow> n @ concat (map (\<lambda>m. '' '' @ m) ms))
                       | Text t \<Rightarrow> t
                       | Absent \<Rightarrow> []) = p @ toLowerCase ''Gaiman Terry'' @ r)))
       (mset (coauthored # shelf))"
    using getDisplayBooks_filter [OF h' [of "''Gaiman Terry''"]] unfolding duo_state_fields
    by blast
  have "\<exists>p r. toLowerCase
                 (case author_name coauthored of
                    Names ns \<Rightarrow>
                      (case ns of [] \<Rightarrow> [] | n # ms \<Rightarrow> n @ concat (map (\<lambda>m. '' '' @ m) ms))
                  | Text t \<Rightarrow> t
                  | Absent \<Rightarrow> []) = p @ toLowerCase ''Gaiman Terry'' @ r"
    unfolding d author_field.case list.case using duo_across_names by blast
  moreover have "status coauthored = ''read''" by (simp add: coauthored_def)
  ultimately have "coauthored \<in># mset bs"
    unfolding ms by simp
  then have e1: "coauthored \<in> set bs" by simp
  from bs duo_shown have e2: "map title bs = [''Good Omens'']"
    by (simp add: shown_titles_def)
  from bs e1 e2 have e: "\<exists>bs. getDisplayBooks (duo_state ''Gaiman Terry'') = BookList bs \<and>
         coauthored \<in> set bs \<and> map title bs = [''Good Omens'']"
    by (intro exI [of _ bs] conjI)
  have f: "getDisplayBooks (duo_state ''GaimanTerry'') = BookList []"
    using getDisplayBooks_filter [OF h' [of "''GaimanTerry''"]]
      duo_no_match [unfolded includes_str_iff authorText_spelled]
    by blast
  from h a b c d e f show ?thesis by (intro conjI)
qed

subsection \<open>The import\<close>

lemma import_row_unfold:
  "import_row e now cs ex i row =
     (if length (row_cols row) \<le> max (tI cs) (aI cs) \<or> row_cols row ! tI cs = [] \<or>
         normalizedTitle (row_cols row ! tI cs) \<in> set ex
      then (Skipped, ex)
      else
        (case parseDate e (Some (or_empty (row_cols row) (dateIdx cs))) of
           None \<Rightarrow> (Threw RangeError, normalizedTitle (row_cols row ! tI cs) # ex)
         | Some t \<Rightarrow>
             if \<bar>t + int i * 1000\<bar> > 8640000000000000
             then (Threw RangeError, normalizedTitle (row_cols row ! tI cs) # ex)
             else
               (Produced
                  (row_bookData e cs (row_cols row) (or_empty (row_cols row) (dateIdx cs))
                     (if \<not> hasMonth (or_empty (row_cols row) (dateIdx cs)) then ''suggested''
                      else if now i < t then ''scheduled'' else ''read'')
                     (t + int i * 1000)),
                normalizedTitle (row_cols row ! tI cs) # ex)))"
  by (simp add: import_row_def Let_def toISOString_def setTime_def TimeClip_def
      split: option.split)

lemma row_bookData_fields:
  "title (row_bookData e cs cols m s d) = cols ! tI cs"
  "status (row_bookData e cs cols m s d) = s"
  "sortDate (row_bookData e cs cols m s d) = d"
  "displayDate (row_bookData e cs cols m s d) = m"
  by (simp_all add: row_bookData_def)

lemma import_row_Produced:
  assumes "import_row e now cs ex i row = (Produced d, ex')"
  shows "ex' = normalizedTitle (title d) # ex \<and>
         normalizedTitle (title d) \<notin> set ex \<and>
         title d = row_cols row ! tI cs \<and>
         displayDate d = or_empty (row_cols row) (dateIdx cs) \<and>
         (\<exists>t. parseDate e (Some (displayDate d)) = Some t \<and>
              sortDate d = t + int i * 1000 \<and>
              status d = (if \<not> hasMonth (displayDate d) then ''suggested''
                          else if now i < t then ''scheduled'' else ''read''))"
proof -
  let ?cols = "row_cols row"
  let ?m = "or_empty ?cols (dateIdx cs)"
  let ?skip = "length ?cols \<le> max (tI cs) (aI cs) \<or> ?cols ! tI cs = [] \<or>
         normalizedTitle (?cols ! tI cs) \<in> set ex"
  have ns: "\<not> ?skip"
  proof
    assume ?skip
    then have "import_row e now cs ex i row = (Skipped, ex)"
      by (simp only: import_row_unfold if_True)
    with assms show False by simp
  qed
  obtain t where t: "parseDate e (Some ?m) = Some t"
  proof (cases "parseDate e (Some ?m)")
    case None
    with ns have "import_row e now cs ex i row =
        (Threw RangeError, normalizedTitle (?cols ! tI cs) # ex)"
      by (simp only: import_row_unfold if_False option.case)
    with assms show ?thesis by simp
  next
    case (Some t)
    with that show ?thesis .
  qed
  have nb: "\<not> \<bar>t + int i * 1000\<bar> > 8640000000000000"
  proof
    assume "\<bar>t + int i * 1000\<bar> > 8640000000000000"
    with ns t have "import_row e now cs ex i row =
        (Threw RangeError, normalizedTitle (?cols ! tI cs) # ex)"
      by (simp only: import_row_unfold if_False if_True option.case)
    with assms show False by simp
  qed
  from ns t nb have "import_row e now cs ex i row =
      (Produced (row_bookData e cs ?cols ?m
                   (if \<not> hasMonth ?m then ''suggested''
                    else if now i < t then ''scheduled'' else ''read'')
                   (t + int i * 1000)),
       normalizedTitle (?cols ! tI cs) # ex)"
    by (simp only: import_row_unfold if_False option.case)
  with assms have d: "d = row_bookData e cs ?cols ?m
                   (if \<not> hasMonth ?m then ''suggested''
                    else if now i < t then ''scheduled'' else ''read'')
                   (t + int i * 1000)"
    and e: "ex' = normalizedTitle (?cols ! tI cs) # ex"
    by simp_all
  from ns have n: "normalizedTitle (?cols ! tI cs) \<notin> set ex" by simp
  show ?thesis
    unfolding d row_bookData_fields using e n t by blast
qed

lemma import_row_Skipped:
  assumes "import_row e now cs ex i row = (Skipped, ex')"
  shows "ex' = ex"
  using assms unfolding import_row_unfold
  by (simp split: if_splits option.splits)

lemma import_row_collision:
  assumes "max (tI cs) (aI cs) < length (row_cols row)"
    and "normalizedTitle (row_cols row ! tI cs) \<in> set ex"
  shows "import_row e now cs ex i row = (Skipped, ex)"
  using assms by (simp add: import_row_unfold)

lemma import_rows_step:
  "import_rows e now cs ex i (row # rows) =
     (case import_row e now cs ex i row of
        (Skipped, ex') \<Rightarrow> import_rows e now cs ex' (Suc i) rows
      | (Threw x, ex') \<Rightarrow> \<lparr> drafts = [], failure = Some x \<rparr>
      | (Produced d, ex') \<Rightarrow>
          (import_rows e now cs ex' (Suc i) rows)
            \<lparr> drafts := d # drafts (import_rows e now cs ex' (Suc i) rows) \<rparr>)"
  by (simp add: Let_def split: prod.split row_result.split)

lemma import_rows_cases:
  obtains
    (skipped) "import_row e now cs ex i row = (Skipped, ex)"
      "drafts (import_rows e now cs ex i (row # rows)) = drafts (import_rows e now cs ex (Suc i) rows)"
  | (threw) "drafts (import_rows e now cs ex i (row # rows)) = []"
  | (produced) d where
      "import_row e now cs ex i row = (Produced d, normalizedTitle (title d) # ex)"
      "drafts (import_rows e now cs ex i (row # rows)) =
         d # drafts (import_rows e now cs (normalizedTitle (title d) # ex) (Suc i) rows)"
proof -
  obtain r ex' where r: "import_row e now cs ex i row = (r, ex')"
    by (cases "import_row e now cs ex i row")
  show thesis
  proof (cases r)
    case Skipped
    with r import_row_Skipped [of e now cs ex i row ex'] have "ex' = ex" by simp
    with r Skipped show thesis by (intro skipped) (simp_all add: import_rows_step)
  next
    case (Produced d)
    with r import_row_Produced [of e now cs ex i row d ex']
    have "ex' = normalizedTitle (title d) # ex" by simp
    with r Produced show thesis by (intro produced [of d]) (simp_all add: import_rows_step Let_def)
  next
    case (Threw x)
    with r show thesis by (intro threw) (simp add: import_rows_step)
  qed
qed

lemma import_rows_titles:
  "distinct (map (\<lambda>d. normalizedTitle (title d)) (drafts (import_rows e now cs ex i rows))) \<and>
   (\<forall>d \<in> set (drafts (import_rows e now cs ex i rows)). normalizedTitle (title d) \<notin> set ex)"
proof (induction rows arbitrary: ex i)
  case Nil
  then show ?case by simp
next
  case (Cons row rows)
  show ?case
  proof (cases rule: import_rows_cases [of e now cs ex i row rows])
    case skipped
    with Cons.IH [of ex "Suc i"] show ?thesis by simp
  next
    case threw
    then show ?thesis by simp
  next
    case (produced d)
    from import_row_Produced [OF produced(1)] have "normalizedTitle (title d) \<notin> set ex" by blast
    with Cons.IH [of "normalizedTitle (title d) # ex" "Suc i"] produced(2)
    show ?thesis by auto
  qed
qed

lemma import_rows_classified:
  "\<forall>d \<in> set (drafts (import_rows e now cs ex i rows)).
     \<exists>k t. i \<le> k \<and> k < i + length rows \<and>
       parseDate e (Some (displayDate d)) = Some t \<and>
       sortDate d = t + int k * 1000 \<and>
       status d = (if \<not> hasMonth (displayDate d) then ''suggested''
                   else if now k < t then ''scheduled'' else ''read'')"
proof (induction rows arbitrary: ex i)
  case Nil
  then show ?case by simp
next
  case (Cons row rows)
  define P where "P k d \<longleftrightarrow> (\<exists>t.
       parseDate e (Some (displayDate d)) = Some t \<and>
       sortDate d = t + int k * 1000 \<and>
       status d = (if \<not> hasMonth (displayDate d) then ''suggested''
                   else if now k < t then ''scheduled'' else ''read''))" for k and d :: bookData
  have ih: "\<forall>d \<in> set (drafts (import_rows e now cs ex' (Suc i) rows)).
      \<exists>k. Suc i \<le> k \<and> k < Suc i + length rows \<and> P k d" for ex'
    using Cons.IH [of ex' "Suc i"] unfolding P_def by blast
  have "\<forall>d \<in> set (drafts (import_rows e now cs ex i (row # rows))).
      \<exists>k. i \<le> k \<and> k < i + length (row # rows) \<and> P k d"
  proof (cases rule: import_rows_cases [of e now cs ex i row rows])
    case skipped
    show ?thesis
    proof
      fix d assume "d \<in> set (drafts (import_rows e now cs ex i (row # rows)))"
      with skipped(2) ih [of ex] obtain k where "Suc i \<le> k" "k < Suc i + length rows" "P k d"
        by auto
      then have "i \<le> k \<and> k < i + length (row # rows) \<and> P k d" by simp
      then show "\<exists>k. i \<le> k \<and> k < i + length (row # rows) \<and> P k d" ..
    qed
  next
    case threw
    then show ?thesis by simp
  next
    case (produced d0)
    from import_row_Produced [OF produced(1)] have p0: "P i d0"
      unfolding P_def by blast
    show ?thesis
    proof
      fix d assume "d \<in> set (drafts (import_rows e now cs ex i (row # rows)))"
      with produced(2) have "d = d0 \<or>
          d \<in> set (drafts (import_rows e now cs (normalizedTitle (title d0) # ex) (Suc i) rows))"
        by simp
      then show "\<exists>k. i \<le> k \<and> k < i + length (row # rows) \<and> P k d"
      proof
        assume "d = d0"
        with p0 have "i \<le> i \<and> i < i + length (row # rows) \<and> P i d" by simp
        then show ?thesis ..
      next
        assume "d \<in> set (drafts (import_rows e now cs (normalizedTitle (title d0) # ex) (Suc i) rows))"
        with ih obtain k where "Suc i \<le> k" "k < Suc i + length rows" "P k d"
          by blast
        then have "i \<le> k \<and> k < i + length (row # rows) \<and> P k d" by simp
        then show ?thesis ..
      qed
    qed
  qed
  then show ?case unfolding P_def by blast
qed

lemma parseSheet_drafts:
  "drafts (parseSheet e now books sheet) = [] \<or>
   drafts (parseSheet e now books sheet) =
     drafts (import_rows e now (find_columns (header_cols (hd (split_char (CHR 0x0A) sheet))))
       (map (\<lambda>b. normalizedTitle (title b)) books) 1 (tl (split_char (CHR 0x0A) sheet)))"
  by (simp add: parseSheet_def Let_def)

text \<open>
  C1. The drafts of an import have pairwise different normalized titles (lower case,
  trimmed), and none of them has the normalized title of a book of the snapshot the import
  started from. A row whose normalized title is in the set of titles already is skipped,
  and a row that gives a draft puts its normalized title into the set at once, so that the
  rows after it see it.
\<close>

theorem import_no_duplicate_titles:
  "distinct (map (\<lambda>d. normalizedTitle (title d)) (drafts (parseSheet e now books sheet))) \<and>
   (\<forall>d \<in> set (drafts (parseSheet e now books sheet)). \<forall>b \<in> set books.
       normalizedTitle (title d) \<noteq> normalizedTitle (title b)) \<and>
   (max (tI cs) (aI cs) < length (row_cols row) \<and>
    normalizedTitle (row_cols row ! tI cs) \<in> set ex \<longrightarrow>
      import_row e now cs ex i row = (Skipped, ex)) \<and>
   (import_row e now cs ex i row = (Produced d, ex') \<longrightarrow>
      title d = row_cols row ! tI cs \<and> normalizedTitle (title d) \<notin> set ex \<and>
      ex' = normalizedTitle (title d) # ex)"
proof (intro conjI)
  let ?ds = "drafts (parseSheet e now books sheet)"
  let ?ex = "map (\<lambda>b. normalizedTitle (title b)) books"
  from parseSheet_drafts [of e now books sheet] import_rows_titles [of e now _ "?ex" 1]
  have t: "distinct (map (\<lambda>d. normalizedTitle (title d)) ?ds) \<and>
      (\<forall>d \<in> set ?ds. normalizedTitle (title d) \<notin> set ?ex)"
    by (elim disjE) simp_all
  then show "distinct (map (\<lambda>d. normalizedTitle (title d)) ?ds)" ..
  from t show "\<forall>d \<in> set ?ds. \<forall>b \<in> set books. normalizedTitle (title d) \<noteq> normalizedTitle (title b)"
    by auto
next
  show "max (tI cs) (aI cs) < length (row_cols row) \<and>
    normalizedTitle (row_cols row ! tI cs) \<in> set ex \<longrightarrow>
      import_row e now cs ex i row = (Skipped, ex)"
    using import_row_collision [of cs row ex e now i] by blast
next
  show "import_row e now cs ex i row = (Produced d, ex') \<longrightarrow>
      title d = row_cols row ! tI cs \<and> normalizedTitle (title d) \<notin> set ex \<and>
      ex' = normalizedTitle (title d) # ex"
    using import_row_Produced [of e now cs ex i row d ex'] by blast
qed

lemma hasMonth_iff:
  "hasMonth s \<longleftrightarrow> (\<exists>m \<in> set month_names. \<exists>p r. toLowerCase s = p @ m @ r)"
  by (simp add: hasMonth_def list_ex_iff includes_str_iff)

text \<open>
  C2. The status of a draft follows from the date text of its row (which is also its
  \<open>displayDate\<close>): "suggested" when none of the twelve three-letter month names stands
  anywhere in the text, letters compared without case; otherwise "scheduled" when the
  time that \<open>parseDate\<close> gives for the text is after the current time read in that row,
  and "read" when it is not. For one row \<open>i\<close> first, then for every draft of an import.
\<close>

theorem import_status_classification:
  "(import_row e now cs ex i row = (Produced d, ex') \<longrightarrow>
      displayDate d = or_empty (row_cols row) (dateIdx cs) \<and>
      (\<exists>t. parseDate e (Some (displayDate d)) = Some t \<and>
           status d = (if \<not> (\<exists>m \<in> set month_names. \<exists>p r. toLowerCase (displayDate d) = p @ m @ r)
                       then ''suggested''
                       else if now i < t then ''scheduled'' else ''read''))) \<and>
   (\<forall>d \<in> set (drafts (parseSheet e now books sheet)).
      \<exists>k t. 1 \<le> k \<and> parseDate e (Some (displayDate d)) = Some t \<and>
        status d = (if \<not> (\<exists>m \<in> set month_names. \<exists>p r. toLowerCase (displayDate d) = p @ m @ r)
                    then ''suggested''
                    else if now k < t then ''scheduled'' else ''read''))"
proof (intro conjI)
  show "import_row e now cs ex i row = (Produced d, ex') \<longrightarrow>
      displayDate d = or_empty (row_cols row) (dateIdx cs) \<and>
      (\<exists>t. parseDate e (Some (displayDate d)) = Some t \<and>
           status d = (if \<not> (\<exists>m \<in> set month_names. \<exists>p r. toLowerCase (displayDate d) = p @ m @ r)
                       then ''suggested''
                       else if now i < t then ''scheduled'' else ''read''))"
    using import_row_Produced [of e now cs ex i row d ex'] unfolding hasMonth_iff by blast
next
  let ?ds = "drafts (parseSheet e now books sheet)"
  let ?ex = "map (\<lambda>b. normalizedTitle (title b)) books"
  show "\<forall>d \<in> set ?ds.
      \<exists>k t. 1 \<le> k \<and> parseDate e (Some (displayDate d)) = Some t \<and>
        status d = (if \<not> (\<exists>m \<in> set month_names. \<exists>p r. toLowerCase (displayDate d) = p @ m @ r)
                    then ''suggested''
                    else if now k < t then ''scheduled'' else ''read'')"
  proof
    fix d assume d: "d \<in> set ?ds"
    with parseSheet_drafts [of e now books sheet]
    have "d \<in> set (drafts (import_rows e now
        (find_columns (header_cols (hd (split_char (CHR 0x0A) sheet)))) ?ex 1
        (tl (split_char (CHR 0x0A) sheet))))"
      by auto
    with import_rows_classified [of e now _ "?ex" 1]
    show "\<exists>k t. 1 \<le> k \<and> parseDate e (Some (displayDate d)) = Some t \<and>
        status d = (if \<not> (\<exists>m \<in> set month_names. \<exists>p r. toLowerCase (displayDate d) = p @ m @ r)
                    then ''suggested''
                    else if now k < t then ''scheduled'' else ''read'')"
      unfolding hasMonth_iff by blast
  qed
qed

lemma sample_titles:
  "map title (drafts (parseSheet strict_env sample_now [sample_book] sample_sheet)) =
     [''Dune'', ''Emma'', ''Babel'']"
  by code_simp

lemma sample_statuses:
  "map status (drafts (parseSheet strict_env sample_now [sample_book] sample_sheet)) =
     [''read'', ''suggested'', ''scheduled'']"
  by code_simp

lemma sample_piranesi: "normalizedTitle (title sample_book) = ''piranesi''"
  by code_simp

lemma dune_again_collides:
  "max (tI sample_columns) (aI sample_columns) < length (row_cols dune_again_row) \<and>
   normalizedTitle (row_cols dune_again_row ! tI sample_columns) \<in> set [''dune'']"
  by code_simp

lemma dune_produced:
  "import_row strict_env sample_now sample_columns [] 1 dune_row = (Produced dune_draft, [''dune''])"
  by code_simp

theorem import_no_duplicate_titles_witness:
  "map title (drafts (parseSheet strict_env sample_now [sample_book] sample_sheet)) =
     [''Dune'', ''Emma'', ''Babel''] \<and>
   distinct (map (\<lambda>d. normalizedTitle (title d))
      (drafts (parseSheet strict_env sample_now [sample_book] sample_sheet))) \<and>
   ''piranesi'' \<notin> (\<lambda>d. normalizedTitle (title d)) `
      set (drafts (parseSheet strict_env sample_now [sample_book] sample_sheet)) \<and>
   normalizedTitle (row_cols dune_again_row ! tI sample_columns) \<in> set [''dune''] \<and>
   import_row strict_env sample_now sample_columns [''dune''] 2 dune_again_row = (Skipped, [''dune'']) \<and>
   import_row strict_env sample_now sample_columns [] 1 dune_row = (Produced dune_draft, [''dune'']) \<and>
   [''dune''] = normalizedTitle (title dune_draft) # []"
proof -
  note t = import_no_duplicate_titles [of strict_env sample_now "[sample_book]" sample_sheet]
  have a: "distinct (map (\<lambda>d. normalizedTitle (title d))
      (drafts (parseSheet strict_env sample_now [sample_book] sample_sheet)))"
    using t by blast
  have "\<forall>d \<in> set (drafts (parseSheet strict_env sample_now [sample_book] sample_sheet)).
      normalizedTitle (title d) \<noteq> normalizedTitle (title sample_book)"
    using t by simp
  then have b: "''piranesi'' \<notin> (\<lambda>d. normalizedTitle (title d)) `
      set (drafts (parseSheet strict_env sample_now [sample_book] sample_sheet))"
    unfolding sample_piranesi by auto
  have c: "import_row strict_env sample_now sample_columns [''dune''] 2 dune_again_row =
      (Skipped, [''dune''])"
    using import_no_duplicate_titles [where cs = sample_columns and row = dune_again_row
        and ex = "[''dune'']" and e = strict_env and now = sample_now and i = 2]
      dune_again_collides by blast
  have d: "[''dune''] = normalizedTitle (title dune_draft) # []"
    using import_no_duplicate_titles [where cs = sample_columns and row = dune_row
        and ex = "[]" and e = strict_env and now = sample_now and i = 1 and d = dune_draft
        and ex' = "[''dune'']"]
      dune_produced by blast
  from sample_titles a b dune_again_collides c dune_produced d show ?thesis by blast
qed

lemma parse_march: "parseDate strict_env (Some ''March 2020'') = Some 1583020800000"
  by code_simp

lemma dune_label: "displayDate dune_draft = ''March 2020''"
  by (simp add: dune_draft_def row_bookData_fields)

lemma sample_length:
  "length (drafts (parseSheet strict_env sample_now [sample_book] sample_sheet)) = 3"
  using sample_titles by (metis length_map length_Cons list.size(3) numeral_3_eq_3)

theorem import_status_classification_witness:
  "import_row strict_env sample_now sample_columns [] 1 dune_row = (Produced dune_draft, [''dune'']) \<and>
   displayDate dune_draft = ''March 2020'' \<and>
   parseDate strict_env (Some ''March 2020'') = Some 1583020800000 \<and>
   status dune_draft =
     (if \<not> (\<exists>m \<in> set month_names. \<exists>p r. toLowerCase ''March 2020'' = p @ m @ r)
      then ''suggested''
      else if sample_now 1 < 1583020800000 then ''scheduled'' else ''read'') \<and>
   map status (drafts (parseSheet strict_env sample_now [sample_book] sample_sheet)) =
     [''read'', ''suggested'', ''scheduled''] \<and>
   (\<exists>k t. 1 \<le> k \<and>
      parseDate strict_env (Some (displayDate
        (drafts (parseSheet strict_env sample_now [sample_book] sample_sheet) ! 2))) = Some t \<and>
      status (drafts (parseSheet strict_env sample_now [sample_book] sample_sheet) ! 2) =
        (if \<not> (\<exists>m \<in> set month_names. \<exists>p r.
               toLowerCase (displayDate
                 (drafts (parseSheet strict_env sample_now [sample_book] sample_sheet) ! 2)) = p @ m @ r)
         then ''suggested''
         else if sample_now k < t then ''scheduled'' else ''read''))"
proof -
  note t = import_status_classification [where e = strict_env and now = sample_now
      and books = "[sample_book]" and sheet = sample_sheet and cs = sample_columns and ex = "[]"
      and i = 1 and row = dune_row and d = dune_draft and ex' = "[''dune'']"]
  from t dune_produced have "\<exists>t. parseDate strict_env (Some (displayDate dune_draft)) = Some t \<and>
      status dune_draft =
        (if \<not> (\<exists>m \<in> set month_names. \<exists>p r. toLowerCase (displayDate dune_draft) = p @ m @ r)
         then ''suggested''
         else if sample_now 1 < t then ''scheduled'' else ''read'')"
    by blast
  then have a: "status dune_draft =
     (if \<not> (\<exists>m \<in> set month_names. \<exists>p r. toLowerCase ''March 2020'' = p @ m @ r)
      then ''suggested''
      else if sample_now 1 < 1583020800000 then ''scheduled'' else ''read'')"
    unfolding dune_label parse_march by blast
  have "drafts (parseSheet strict_env sample_now [sample_book] sample_sheet) ! 2 \<in>
      set (drafts (parseSheet strict_env sample_now [sample_book] sample_sheet))"
    using sample_length by simp
  with t have b: "\<exists>k t. 1 \<le> k \<and>
      parseDate strict_env (Some (displayDate
        (drafts (parseSheet strict_env sample_now [sample_book] sample_sheet) ! 2))) = Some t \<and>
      status (drafts (parseSheet strict_env sample_now [sample_book] sample_sheet) ! 2) =
        (if \<not> (\<exists>m \<in> set month_names. \<exists>p r.
               toLowerCase (displayDate
                 (drafts (parseSheet strict_env sample_now [sample_book] sample_sheet) ! 2)) = p @ m @ r)
         then ''suggested''
         else if sample_now k < t then ''scheduled'' else ''read'')"
    by blast
  from dune_produced dune_label parse_march a sample_statuses b show ?thesis by (intro conjI)
qed

subsection \<open>Splitting a row into fields\<close>

lemma split_fields_nonempty: "split_fields s \<noteq> []"
  by (cases s) (auto split: list.split)

lemma split_fields_Cons:
  "split_fields (c # cs) =
     (if c = CHR '','' \<and> even (quotes cs) then [] # split_fields cs
      else (c # hd (split_fields cs)) # tl (split_fields cs))"
  using split_fields_nonempty [of cs] by (cases "split_fields cs") simp_all

lemma quotes_append: "quotes (p @ r) = quotes p + quotes r"
  by (simp add: quotes_def)

lemma quotes_comma: "quotes (CHR '','' # r) = quotes r"
  by (simp add: quotes_def isQuote_def)

lemma join_str_Cons:
  "xs \<noteq> [] \<Longrightarrow> join_str sep (x # xs) = x @ sep @ join_str sep xs"
  by (cases xs) simp_all

lemma join_str_Cons_head:
  "join_str sep ((c # f) # fs) = c # join_str sep (f # fs)"
  by (cases fs) simp_all

lemma join_split_fields: "join_str '','' (split_fields s) = s"
proof (induction s)
  case Nil
  then show ?case by simp
next
  case (Cons c cs)
  have "join_str '','' ((c # hd (split_fields cs)) # tl (split_fields cs)) =
      c # join_str '','' (split_fields cs)"
    using split_fields_nonempty [of cs] by (simp add: join_str_Cons_head)
  with Cons.IH show ?case
    by (simp add: split_fields_Cons join_str_Cons split_fields_nonempty del: split_fields.simps)
qed

lemma split_at_comma:
  assumes "even (quotes r)"
  shows "split_fields (p @ CHR '','' # r) = split_fields p @ split_fields r"
proof (induction p)
  case Nil
  with assms show ?case by simp
next
  case (Cons c p)
  have "even (quotes (p @ CHR '','' # r)) \<longleftrightarrow> even (quotes p)"
    using assms by (simp add: quotes_append quotes_comma)
  with Cons.IH split_fields_nonempty [of p] show ?case
    by (simp add: split_fields_Cons del: split_fields.simps)
qed

lemma no_split_at_comma:
  assumes "odd (quotes r)"
  shows "\<exists>fs a b gs. split_fields (p @ CHR '','' # r) = fs @ [a @ CHR '','' # b] @ gs \<and>
           join_str '','' (fs @ [a]) = p \<and> join_str '','' (b # gs) = r"
proof (induction p)
  case Nil
  have "split_fields (CHR '','' # r) = [] @ [[] @ CHR '','' # hd (split_fields r)] @ tl (split_fields r)"
    using assms by (simp add: split_fields_Cons del: split_fields.simps)
  moreover have "join_str '','' (hd (split_fields r) # tl (split_fields r)) = r"
    using split_fields_nonempty [of r] join_split_fields [of r] by simp
  ultimately show ?case
    by (intro exI [of _ "[]"] exI [of _ "hd (split_fields r)"] exI [of _ "tl (split_fields r)"]) simp
next
  case (Cons c p)
  then obtain fs a b gs where
    s: "split_fields (p @ CHR '','' # r) = fs @ [a @ CHR '','' # b] @ gs"
    and p: "join_str '','' (fs @ [a]) = p" and r: "join_str '','' (b # gs) = r"
    by blast
  show ?case
  proof (cases "c = CHR '','' \<and> even (quotes (p @ CHR '','' # r))")
    case True
    then have "split_fields ((c # p) @ CHR '','' # r) = ([] # fs) @ [a @ CHR '','' # b] @ gs"
      using s by (simp add: split_fields_Cons del: split_fields.simps)
    moreover have "join_str '','' (([] # fs) @ [a]) = c # p"
      using True p by (simp add: join_str_Cons)
    ultimately show ?thesis using r by blast
  next
    case False
    show ?thesis
    proof (cases fs)
      case Nil
      with False s have "split_fields ((c # p) @ CHR '','' # r) = [] @ [(c # a) @ CHR '','' # b] @ gs"
        by (simp add: split_fields_Cons del: split_fields.simps)
      moreover have "join_str '','' ([] @ [c # a]) = c # p"
        using p Nil by simp
      ultimately show ?thesis using r by blast
    next
      case (Cons f fs')
      with False s have "split_fields ((c # p) @ CHR '','' # r) =
          ((c # f) # fs') @ [a @ CHR '','' # b] @ gs"
        by (simp add: split_fields_Cons del: split_fields.simps)
      moreover have "join_str '','' (((c # f) # fs') @ [a]) = c # p"
        using p Cons by (simp add: join_str_Cons_head)
      ultimately show ?thesis using r by blast
    qed
  qed
qed

lemma strip_quotes_quoted: "strip_quotes (quoted body) = body"
  by (simp add: strip_quotes_def quoted_def dq_def isQuote_def)

lemma strip_quotes_plain: "quotes f = 0 \<Longrightarrow> strip_quotes f = f"
proof (cases f)
  case Nil
  then show ?thesis by (simp add: strip_quotes_def)
next
  case (Cons c cs)
  assume q: "quotes f = 0"
  have n: "\<forall>x \<in> set f. \<not> isQuote x"
    using q by (simp add: quotes_def filter_empty_conv)
  with Cons have "\<not> isQuote c" and "\<not> isQuote (last f)"
    by (simp, metis last_in_set list.distinct(1))
  with Cons show ?thesis by (simp add: strip_quotes_def)
qed

lemma example_line_cols: "row_cols example_line = [''Smith, John'', ''Title, With Comma'', ''2020'']"
  by code_simp

lemma row_cols_nth:
  "k < length (split_fields line) \<Longrightarrow> row_cols line ! k = trim (strip_quotes (split_fields line ! k))"
  by (simp add: row_cols_def)

text \<open>
  C6, as amended. A comma splits the line exactly when the number of double quotes after
  it in the line is even: then the fields are those of the text before it followed by those
  of the text after it, and otherwise the comma stays inside one field (the fields before
  it and the part of its field before it make up the text before the comma, joined by
  commas; likewise after it). So on a line with an even number of double quotes, no comma
  with an odd number of them before it, that is inside a quoted region, splits. A field
  that is a text between two double quotes comes out as that text, trimmed; a field
  without double quotes comes out trimmed. The example line gives exactly three fields.
\<close>

theorem split_fields_quoted_commas:
  "(even (quotes r) \<longrightarrow> split_fields (p @ CHR '','' # r) = split_fields p @ split_fields r) \<and>
   (odd (quotes r) \<longrightarrow>
      (\<exists>fs a b gs. split_fields (p @ CHR '','' # r) = fs @ [a @ CHR '','' # b] @ gs \<and>
         join_str '','' (fs @ [a]) = p \<and> join_str '','' (b # gs) = r)) \<and>
   (even (quotes (p @ CHR '','' # r)) \<and> odd (quotes p) \<longrightarrow>
      (\<exists>fs a b gs. split_fields (p @ CHR '','' # r) = fs @ [a @ CHR '','' # b] @ gs \<and>
         join_str '','' (fs @ [a]) = p \<and> join_str '','' (b # gs) = r)) \<and>
   length (row_cols line) = length (split_fields line) \<and>
   (k < length (split_fields line) \<and> split_fields line ! k = quoted body \<longrightarrow>
      row_cols line ! k = trim body) \<and>
   (k < length (split_fields line) \<and> quotes (split_fields line ! k) = 0 \<longrightarrow>
      row_cols line ! k = trim (split_fields line ! k)) \<and>
   row_cols example_line = [''Smith, John'', ''Title, With Comma'', ''2020'']"
proof (intro conjI impI)
  assume "even (quotes r)"
  then show "split_fields (p @ CHR '','' # r) = split_fields p @ split_fields r"
    by (rule split_at_comma)
next
  assume "odd (quotes r)"
  then show "\<exists>fs a b gs. split_fields (p @ CHR '','' # r) = fs @ [a @ CHR '','' # b] @ gs \<and>
         join_str '','' (fs @ [a]) = p \<and> join_str '','' (b # gs) = r"
    by (rule no_split_at_comma)
next
  assume "even (quotes (p @ CHR '','' # r)) \<and> odd (quotes p)"
  then have "odd (quotes r)"
    by (auto simp: quotes_append quotes_comma)
  then show "\<exists>fs a b gs. split_fields (p @ CHR '','' # r) = fs @ [a @ CHR '','' # b] @ gs \<and>
         join_str '','' (fs @ [a]) = p \<and> join_str '','' (b # gs) = r"
    by (rule no_split_at_comma)
next
  show "length (row_cols line) = length (split_fields line)"
    by (simp add: row_cols_def)
next
  assume "k < length (split_fields line) \<and> split_fields line ! k = quoted body"
  then show "row_cols line ! k = trim body"
    by (simp add: row_cols_nth strip_quotes_quoted)
next
  assume "k < length (split_fields line) \<and> quotes (split_fields line ! k) = 0"
  then show "row_cols line ! k = trim (split_fields line ! k)"
    by (simp add: row_cols_nth strip_quotes_plain)
next
  show "row_cols example_line = [''Smith, John'', ''Title, With Comma'', ''2020'']"
    by (rule example_line_cols)
qed

text \<open>
  The claim as it is written fails on two lines. In \<open>Smith, "Title, With Comma"\<close> the second
  field has a space before its opening quote: the quotes are removed before the trimming,
  so only the closing quote goes and the field comes out with its opening quote. In
  \<open>"a,b",c"\<close>, which has three double quotes, the line is split at the comma between the
  first two quotes and not at the one after them.
\<close>

theorem split_fields_counterexample:
  "row_cols (''Smith, '' @ quoted ''Title, With Comma'') = [''Smith'', dq # ''Title, With Comma''] \<and>
   split_fields (quoted ''a,b'' @ '',c'' @ [dq]) = [dq # ''a'', ''b'' @ [dq] @ '',c'' @ [dq]]"
  by code_simp

lemma example_parities:
  "even (quotes (quoted ''Title, With Comma'' @ '',2020''))"
  "odd (quotes ('' John'' @ [dq] @ '','' @ quoted ''Title, With Comma'' @ '',2020''))"
  "even (quotes ((dq # ''Smith'') @ CHR '','' # '' John'' @ [dq] @ '',2020'')) \<and> odd (quotes (dq # ''Smith''))"
  by code_simp+

lemma example_fields:
  "0 < length (split_fields example_line) \<and> split_fields example_line ! 0 = quoted ''Smith, John''"
  "2 < length (split_fields example_line) \<and> quotes (split_fields example_line ! 2) = 0"
  "split_fields example_line ! 2 = ''2020''"
  "trim ''Smith, John'' = ''Smith, John''"
  by code_simp+

theorem split_fields_quoted_commas_witness:
  "even (quotes (quoted ''Title, With Comma'' @ '',2020'')) \<and>
   split_fields (quoted ''Smith, John'' @ CHR '','' # quoted ''Title, With Comma'' @ '',2020'') =
     split_fields (quoted ''Smith, John'') @ split_fields (quoted ''Title, With Comma'' @ '',2020'') \<and>
   odd (quotes ('' John'' @ [dq] @ '','' @ quoted ''Title, With Comma'' @ '',2020'')) \<and>
   (\<exists>fs a b gs.
      split_fields ((dq # ''Smith'') @ CHR '','' # '' John'' @ [dq] @ '','' @
                      quoted ''Title, With Comma'' @ '',2020'') = fs @ [a @ CHR '','' # b] @ gs \<and>
      join_str '','' (fs @ [a]) = dq # ''Smith'' \<and>
      join_str '','' (b # gs) = '' John'' @ [dq] @ '','' @ quoted ''Title, With Comma'' @ '',2020'') \<and>
   odd (quotes (dq # ''Smith'')) \<and>
   (\<exists>fs a b gs.
      split_fields ((dq # ''Smith'') @ CHR '','' # '' John'' @ [dq] @ '',2020'') =
        fs @ [a @ CHR '','' # b] @ gs \<and>
      join_str '','' (fs @ [a]) = dq # ''Smith'' \<and>
      join_str '','' (b # gs) = '' John'' @ [dq] @ '',2020'') \<and>
   split_fields example_line ! 0 = quoted ''Smith, John'' \<and>
   row_cols example_line ! 0 = trim ''Smith, John'' \<and>
   quotes (split_fields example_line ! 2) = 0 \<and>
   row_cols example_line ! 2 = trim (split_fields example_line ! 2) \<and>
   row_cols example_line = [''Smith, John'', ''Title, With Comma'', ''2020'']"
proof -
  note t1 = split_fields_quoted_commas [where r = "quoted ''Title, With Comma'' @ '',2020''"
      and p = "quoted ''Smith, John''" and line = example_line and k = 0
      and body = "''Smith, John''"]
  note t2 = split_fields_quoted_commas [where p = "dq # ''Smith''"
      and r = "'' John'' @ [dq] @ '','' @ quoted ''Title, With Comma'' @ '',2020''"
      and line = example_line and k = 2]
  note t3 = split_fields_quoted_commas [where p = "dq # ''Smith''"
      and r = "'' John'' @ [dq] @ '',2020''"]
  have a: "split_fields (quoted ''Smith, John'' @ CHR '','' # quoted ''Title, With Comma'' @ '',2020'') =
     split_fields (quoted ''Smith, John'') @ split_fields (quoted ''Title, With Comma'' @ '',2020'')"
    using t1 example_parities(1) by blast
  have b: "\<exists>fs a b gs.
      split_fields ((dq # ''Smith'') @ CHR '','' # '' John'' @ [dq] @ '','' @
                      quoted ''Title, With Comma'' @ '',2020'') = fs @ [a @ CHR '','' # b] @ gs \<and>
      join_str '','' (fs @ [a]) = dq # ''Smith'' \<and>
      join_str '','' (b # gs) = '' John'' @ [dq] @ '','' @ quoted ''Title, With Comma'' @ '',2020''"
    using t2 example_parities(2) by blast
  have c: "\<exists>fs a b gs.
      split_fields ((dq # ''Smith'') @ CHR '','' # '' John'' @ [dq] @ '',2020'') =
        fs @ [a @ CHR '','' # b] @ gs \<and>
      join_str '','' (fs @ [a]) = dq # ''Smith'' \<and>
      join_str '','' (b # gs) = '' John'' @ [dq] @ '',2020''"
    using t3 example_parities(3) by blast
  have d: "row_cols example_line ! 0 = trim ''Smith, John''"
    using t1 example_fields(1) by blast
  have e: "row_cols example_line ! 2 = trim (split_fields example_line ! 2)"
    using t2 example_fields(2) by blast
  have f: "row_cols example_line = [''Smith, John'', ''Title, With Comma'', ''2020'']"
    using t1 by blast
  from example_parities example_fields a b c d e f show ?thesis by (intro conjI) blast+
qed

subsection \<open>parseDate\<close>

text \<open>
  C3, as amended. \<open>parseDate\<close> gives a \<open>Date\<close> for every string and for a missing argument
  (the model has no branch that throws: every operation it uses is defined on all
  strings). It gives the epoch for an empty or missing argument, and the time of the
  engine's parser when that reads the string. Otherwise it splits the trimmed string at
  runs of white space and hyphens; with fewer than two pieces, or when the first three
  characters of the first piece, in lower case, are not one of the twelve month
  abbreviations, or when \<open>parseInt\<close> reads no number from the last piece, it gives the
  epoch. When both resolve, the year is the number \<open>parseInt\<close> reads (a sign, leading
  decimal or 0x digits, whatever follows ignored; 0 to 99 mean 1900 to 1999), and when the
  first of that month lies in the range of \<open>Date\<close>, the result is that local midnight.
\<close>

theorem parseDate_cases:
  "parseDate e None = Some 0 \<and>
   parseDate e (Some []) = Some 0 \<and>
   (s \<noteq> [] \<and> Date_parse e s = Some t \<longrightarrow> parseDate e (Some s) = Some t) \<and>
   (s \<noteq> [] \<and> Date_parse e s = None \<and> length (split_separators (trim s)) < 2 \<longrightarrow>
      parseDate e (Some s) = Some 0) \<and>
   (s \<noteq> [] \<and> Date_parse e s = None \<and> 2 \<le> length (split_separators (trim s)) \<and>
    (months (take 3 (toLowerCase (hd (split_separators (trim s))))) = None \<or>
     parseInt (last (split_separators (trim s))) = None) \<longrightarrow>
      parseDate e (Some s) = Some 0) \<and>
   (s \<noteq> [] \<and> Date_parse e s = None \<and> 2 \<le> length (split_separators (trim s)) \<and>
    months (take 3 (toLowerCase (hd (split_separators (trim s))))) = Some m \<and>
    parseInt (last (split_separators (trim s))) = Some y \<and>
    \<bar>UTC e (firstOfMonth (if 0 \<le> y \<and> y \<le> 99 then 1900 + y else y) m)\<bar> \<le> 8640000000000000 \<longrightarrow>
      parseDate e (Some s) =
        Some (UTC e (firstOfMonth (if 0 \<le> y \<and> y \<le> 99 then 1900 + y else y) m)))"
proof (intro conjI impI)
  show "parseDate e None = Some 0" by (simp add: parseDate_def)
  show "parseDate e (Some []) = Some 0" by (simp add: parseDate_def)
next
  assume "s \<noteq> [] \<and> Date_parse e s = Some t"
  then show "parseDate e (Some s) = Some t" by (simp add: parseDate_def)
next
  assume "s \<noteq> [] \<and> Date_parse e s = None \<and> length (split_separators (trim s)) < 2"
  then show "parseDate e (Some s) = Some 0" by (simp add: parseDate_def Let_def)
next
  assume "s \<noteq> [] \<and> Date_parse e s = None \<and> 2 \<le> length (split_separators (trim s)) \<and>
    (months (take 3 (toLowerCase (hd (split_separators (trim s))))) = None \<or>
     parseInt (last (split_separators (trim s))) = None)"
  then show "parseDate e (Some s) = Some 0"
    by (auto simp: parseDate_def Let_def split: option.splits)
next
  assume a: "s \<noteq> [] \<and> Date_parse e s = None \<and> 2 \<le> length (split_separators (trim s)) \<and>
    months (take 3 (toLowerCase (hd (split_separators (trim s))))) = Some m \<and>
    parseInt (last (split_separators (trim s))) = Some y \<and>
    \<bar>UTC e (firstOfMonth (if 0 \<le> y \<and> y \<le> 99 then 1900 + y else y) m)\<bar> \<le> 8640000000000000"
  then have "parseDate e (Some s) = new_Date_local e y m"
    by (simp add: parseDate_def Let_def)
  also have "\<dots> = Some (UTC e (firstOfMonth (if 0 \<le> y \<and> y \<le> 99 then 1900 + y else y) m))"
    using a by (simp add: new_Date_local_def Let_def TimeClip_def)
  finally show "parseDate e (Some s) =
        Some (UTC e (firstOfMonth (if 0 \<le> y \<and> y \<le> 99 then 1900 + y else y) m))" .
qed

text \<open>
  The claim as it is written fails on \<open>Sep 25\<close>, whose last piece is no four-digit year and
  which still gives a date other than the epoch, 1 September 1925; and on \<open>Jan 999999\<close>,
  where month and year resolve and the result is an Invalid Date, neither a first of a
  month nor the epoch (the engine's parser reading neither string).
\<close>

theorem parseDate_counterexample:
  "\<not> isFourDigitYear (last (split_separators (trim ''Sep 25''))) \<and>
   parseDate strict_env (Some ''Sep 25'') = Some (- 1399075200000) \<and>
   months (take 3 (toLowerCase (hd (split_separators (trim ''Jan 999999''))))) = Some 0 \<and>
   parseInt (last (split_separators (trim ''Jan 999999''))) = Some 999999 \<and>
   parseDate strict_env (Some ''Jan 999999'') = None"
  by code_simp

lemma parseDate_samples:
  "''2025-09-01T00:00:00.000Z'' \<noteq> [] \<and>
     Date_parse iso_env ''2025-09-01T00:00:00.000Z'' = Some 1756684800000"
  "''garbage'' \<noteq> [] \<and> Date_parse strict_env ''garbage'' = None \<and>
     length (split_separators (trim ''garbage'')) < 2"
  "''Sep twenty'' \<noteq> [] \<and> Date_parse strict_env ''Sep twenty'' = None \<and>
     2 \<le> length (split_separators (trim ''Sep twenty'')) \<and>
     (months (take 3 (toLowerCase (hd (split_separators (trim ''Sep twenty''))))) = None \<or>
      parseInt (last (split_separators (trim ''Sep twenty''))) = None)"
  "''September 2025'' \<noteq> [] \<and> Date_parse strict_env ''September 2025'' = None \<and>
     2 \<le> length (split_separators (trim ''September 2025'')) \<and>
     months (take 3 (toLowerCase (hd (split_separators (trim ''September 2025''))))) = Some 8 \<and>
     parseInt (last (split_separators (trim ''September 2025''))) = Some 2025 \<and>
     \<bar>UTC strict_env (firstOfMonth (if 0 \<le> (2025::int) \<and> (2025::int) \<le> 99 then 1900 + 2025 else 2025) 8)\<bar>
       \<le> 8640000000000000"
  "UTC strict_env (firstOfMonth (if 0 \<le> (2025::int) \<and> (2025::int) \<le> 99 then 1900 + 2025 else 2025) 8) =
     1756684800000"
  by code_simp+

theorem parseDate_cases_witness:
  "parseDate strict_env None = Some 0 \<and>
   parseDate strict_env (Some []) = Some 0 \<and>
   Date_parse iso_env ''2025-09-01T00:00:00.000Z'' = Some 1756684800000 \<and>
   parseDate iso_env (Some ''2025-09-01T00:00:00.000Z'') = Some 1756684800000 \<and>
   length (split_separators (trim ''garbage'')) < 2 \<and>
   parseDate strict_env (Some ''garbage'') = Some 0 \<and>
   2 \<le> length (split_separators (trim ''Sep twenty'')) \<and>
   parseDate strict_env (Some ''Sep twenty'') = Some 0 \<and>
   months (take 3 (toLowerCase (hd (split_separators (trim ''September 2025''))))) = Some 8 \<and>
   parseInt (last (split_separators (trim ''September 2025''))) = Some 2025 \<and>
   parseDate strict_env (Some ''September 2025'') = Some 1756684800000"
proof -
  have a: "parseDate strict_env None = Some 0" "parseDate strict_env (Some []) = Some 0"
    using parseDate_cases [of strict_env] by blast+
  have b: "parseDate iso_env (Some ''2025-09-01T00:00:00.000Z'') = Some 1756684800000"
    using parseDate_cases [where e = iso_env and s = "''2025-09-01T00:00:00.000Z''"
        and t = 1756684800000] parseDate_samples(1) by blast
  have c: "parseDate strict_env (Some ''garbage'') = Some 0"
    using parseDate_cases [where e = strict_env and s = "''garbage''"] parseDate_samples(2)
    by blast
  have d: "parseDate strict_env (Some ''Sep twenty'') = Some 0"
    using parseDate_cases [where e = strict_env and s = "''Sep twenty''"] parseDate_samples(3)
    by blast
  have "parseDate strict_env (Some ''September 2025'') =
      Some (UTC strict_env (firstOfMonth (if 0 \<le> (2025::int) \<and> (2025::int) \<le> 99 then 1900 + 2025 else 2025) 8))"
    using parseDate_cases [where e = strict_env and s = "''September 2025''" and m = 8
        and y = 2025] parseDate_samples(4) by blast
  then have f: "parseDate strict_env (Some ''September 2025'') = Some 1756684800000"
    unfolding parseDate_samples(5) .
  from a b c d f parseDate_samples(1,2,3,4) show ?thesis by (intro conjI) blast+
qed

subsection \<open>The row offset and the order of the list\<close>

lemma import_row_offset:
  assumes "import_row e now cs ex i row = (Produced d, ex')"
  shows "row_offset e d = int i * 1000"
  using import_row_Produced [OF assms] by (auto simp: row_offset_def)

lemma import_rows_offsets:
  "sorted_wrt (\<lambda>x y. x < y) (map (row_offset e) (drafts (import_rows e now cs ex i rows))) \<and>
   (\<forall>d \<in> set (drafts (import_rows e now cs ex i rows)). int i * 1000 \<le> row_offset e d)"
proof (induction rows arbitrary: ex i)
  case Nil
  then show ?case by simp
next
  case (Cons row rows)
  show ?case
  proof (cases rule: import_rows_cases [of e now cs ex i row rows])
    case skipped
    with Cons.IH [of ex "Suc i"] show ?thesis by fastforce
  next
    case threw
    then show ?thesis by simp
  next
    case (produced d)
    from import_row_offset [OF produced(1)] have "row_offset e d = int i * 1000" .
    with Cons.IH [of "normalizedTitle (title d) # ex" "Suc i"] produced(2)
    show ?thesis by fastforce
  qed
qed

lemma parseSheet_offsets:
  "sorted_wrt (\<lambda>x y. x < y) (map (row_offset e) (drafts (parseSheet e now books sheet)))"
  using parseSheet_drafts [of e now books sheet] import_rows_offsets [of e now _ _ 1]
  by (elim disjE) simp_all

lemma parseSheet_parsed:
  assumes "d \<in> set (drafts (parseSheet e now books sheet))"
  shows "\<exists>t. parseDate e (Some (displayDate d)) = Some t \<and> sortDate d = t + row_offset e d"
proof -
  from assms parseSheet_drafts [of e now books sheet]
  have "d \<in> set (drafts (import_rows e now
        (find_columns (header_cols (hd (split_char (CHR 0x0A) sheet))))
        (map (\<lambda>b. normalizedTitle (title b)) books) 1 (tl (split_char (CHR 0x0A) sheet))))"
    by auto
  with import_rows_classified [of e now _ "map (\<lambda>b. normalizedTitle (title b)) books" 1]
  obtain k t where "parseDate e (Some (displayDate d)) = Some t" "sortDate d = t + int k * 1000"
    by blast
  then show ?thesis by (simp add: row_offset_def)
qed

lemma import_ties_ordered:
  assumes "p < q" and "q < length (drafts (parseSheet e now books sheet))"
    and "parseDate e (Some (displayDate (drafts (parseSheet e now books sheet) ! p))) =
         parseDate e (Some (displayDate (drafts (parseSheet e now books sheet) ! q)))"
  shows "sortDate (drafts (parseSheet e now books sheet) ! p) <
         sortDate (drafts (parseSheet e now books sheet) ! q)"
proof -
  let ?ds = "drafts (parseSheet e now books sheet)"
  from assms(1,2) have "row_offset e (?ds ! p) < row_offset e (?ds ! q)"
    using parseSheet_offsets [of e now books sheet]
    by (simp add: sorted_wrt_iff_nth_less)
  moreover from assms(1,2) have "?ds ! p \<in> set ?ds" "?ds ! q \<in> set ?ds" by simp_all
  then obtain t u where "parseDate e (Some (displayDate (?ds ! p))) = Some t"
      "sortDate (?ds ! p) = t + row_offset e (?ds ! p)"
      "parseDate e (Some (displayDate (?ds ! q))) = Some u"
      "sortDate (?ds ! q) = u + row_offset e (?ds ! q)"
    using parseSheet_parsed [of _ e now books sheet] by blast
  ultimately show ?thesis using assms(3) by simp
qed

lemma view_positions:
  assumes "activeTab st \<noteq> ''search''" and "getDisplayBooks st = BookList bs"
    and "m < length bs" and "n < length bs" and "sortDate (bs ! m) < sortDate (bs ! n)"
  shows "(activeTab st = ''scheduled'' \<longrightarrow> m < n) \<and> (activeTab st \<noteq> ''scheduled'' \<longrightarrow> n < m)"
proof -
  let ?k = "\<lambda>b::book. if activeTab st = ''scheduled'' then sortDate b else - sortDate b"
  from getDisplayBooks_lists [OF assms(1)] assms(2)
  have "bs = sort_key ?k (filter (matchesFilter (activeTab st) (filterQuery st)) (myBooks st))"
    by simp
  then have s: "sorted (map ?k bs)" by (simp only: sorted_sort_key)
  show ?thesis
  proof (intro conjI impI)
    assume t: "activeTab st = ''scheduled''"
    show "m < n"
    proof (rule ccontr)
      assume "\<not> m < n"
      then have "n \<le> m" by simp
      with s assms(3) have "?k (bs ! n) \<le> ?k (bs ! m)"
        by (simp add: sorted_iff_nth_mono del: sorted_map)
      with t assms(5) show False by simp
    qed
  next
    assume t: "activeTab st \<noteq> ''scheduled''"
    show "n < m"
    proof (rule ccontr)
      assume "\<not> n < m"
      then have "m \<le> n" by simp
      with s assms(4) have "?k (bs ! m) \<le> ?k (bs ! n)"
        by (simp add: sorted_iff_nth_mono del: sorted_map)
      with t assms(5) show False by simp
    qed
  qed
qed

text \<open>
  C9, as amended. A row \<open>i\<close> that gives a draft stores the time parsed from its date text
  plus \<open>i\<close> times 1000 ms as \<open>sortDate\<close>. So of two drafts of an import whose date texts parse
  to the same time, the one from the earlier row has the smaller \<open>sortDate\<close>; and when both
  are shown by \<open>getDisplayBooks\<close>, the earlier row comes first on the scheduled tab, which
  sorts upwards, and the later row comes first on every other tab, which sorts downwards.
\<close>

theorem import_offset_order:
  assumes "p < q" and "q < length (drafts (parseSheet e now books sheet))"
    and "parseDate e (Some (displayDate (drafts (parseSheet e now books sheet) ! p))) =
         parseDate e (Some (displayDate (drafts (parseSheet e now books sheet) ! q)))"
    and "activeTab st \<noteq> ''search''" and "getDisplayBooks st = BookList bs"
    and "m < length bs" and "n < length bs"
    and "bs ! m = snapshot_book k1 (drafts (parseSheet e now books sheet) ! p)"
    and "bs ! n = snapshot_book k2 (drafts (parseSheet e now books sheet) ! q)"
  shows "(import_row e now cs ex i row = (Produced d, ex') \<longrightarrow>
           (\<exists>t. parseDate e (Some (displayDate d)) = Some t \<and> sortDate d = t + int i * 1000)) \<and>
         sortDate (drafts (parseSheet e now books sheet) ! p) <
           sortDate (drafts (parseSheet e now books sheet) ! q) \<and>
         (activeTab st = ''scheduled'' \<longrightarrow> m < n) \<and>
         (activeTab st \<noteq> ''scheduled'' \<longrightarrow> n < m)"
proof -
  have a: "import_row e now cs ex i row = (Produced d, ex') \<longrightarrow>
           (\<exists>t. parseDate e (Some (displayDate d)) = Some t \<and> sortDate d = t + int i * 1000)"
    using import_row_Produced [of e now cs ex i row d ex'] by blast
  have b: "sortDate (drafts (parseSheet e now books sheet) ! p) <
           sortDate (drafts (parseSheet e now books sheet) ! q)"
    by (rule import_ties_ordered [OF assms(1,2,3)])
  then have "sortDate (bs ! m) < sortDate (bs ! n)"
    unfolding assms(8,9) by (simp add: snapshot_book_def)
  from view_positions [OF assms(4,5,6,7) this] a b show ?thesis by blast
qed

text \<open>
  The claim as it is written fails on the read tab: two rows with the date text
  \<open>March 2020\<close>, Abel before Baker in the sheet, are shown as Baker before Abel.
\<close>

theorem import_offset_order_counterexample:
  "map title (tie_drafts ''March 2020'') = [''Abel'', ''Baker''] \<and>
   map displayDate (tie_drafts ''March 2020'') = [''March 2020'', ''March 2020''] \<and>
   map sortDate (tie_drafts ''March 2020'') = [1583020801000, 1583020802000] \<and>
   shown_titles (getDisplayBooks (tie_state ''March 2020'' ''read'')) = [''Baker'', ''Abel'']"
  by code_simp

lemma tie_views:
  "getDisplayBooks (tie_state ''March 2020'' ''read'') =
     BookList [snapshot_book ''k2'' (drafts (parseSheet strict_env sample_now [] (tie_sheet ''March 2020'')) ! 1),
               snapshot_book ''k1'' (drafts (parseSheet strict_env sample_now [] (tie_sheet ''March 2020'')) ! 0)]"
  "getDisplayBooks (tie_state ''March 2099'' ''scheduled'') =
     BookList [snapshot_book ''k1'' (drafts (parseSheet strict_env sample_now [] (tie_sheet ''March 2099'')) ! 0),
               snapshot_book ''k2'' (drafts (parseSheet strict_env sample_now [] (tie_sheet ''March 2099'')) ! 1)]"
  by code_simp+

lemma tie_facts:
  "length (drafts (parseSheet strict_env sample_now [] (tie_sheet ''March 2020''))) = 2"
  "length (drafts (parseSheet strict_env sample_now [] (tie_sheet ''March 2099''))) = 2"
  "parseDate strict_env (Some (displayDate (drafts (parseSheet strict_env sample_now [] (tie_sheet ''March 2020'')) ! 0))) =
   parseDate strict_env (Some (displayDate (drafts (parseSheet strict_env sample_now [] (tie_sheet ''March 2020'')) ! 1)))"
  "parseDate strict_env (Some (displayDate (drafts (parseSheet strict_env sample_now [] (tie_sheet ''March 2099'')) ! 0))) =
   parseDate strict_env (Some (displayDate (drafts (parseSheet strict_env sample_now [] (tie_sheet ''March 2099'')) ! 1)))"
  by code_simp+

lemma tie_tabs:
  "activeTab (tie_state month tab) = tab"
  by (simp add: tie_state_def)

theorem import_offset_order_witness:
  "import_row strict_env sample_now sample_columns [] 1 dune_row = (Produced dune_draft, [''dune'']) \<and>
   (\<exists>t. parseDate strict_env (Some (displayDate dune_draft)) = Some t \<and>
        sortDate dune_draft = t + int 1 * 1000) \<and>
   getDisplayBooks (tie_state ''March 2020'' ''read'') =
     BookList [snapshot_book ''k2'' (drafts (parseSheet strict_env sample_now [] (tie_sheet ''March 2020'')) ! 1),
               snapshot_book ''k1'' (drafts (parseSheet strict_env sample_now [] (tie_sheet ''March 2020'')) ! 0)] \<and>
   sortDate (drafts (parseSheet strict_env sample_now [] (tie_sheet ''March 2020'')) ! 0) <
     sortDate (drafts (parseSheet strict_env sample_now [] (tie_sheet ''March 2020'')) ! 1) \<and>
   getDisplayBooks (tie_state ''March 2099'' ''scheduled'') =
     BookList [snapshot_book ''k1'' (drafts (parseSheet strict_env sample_now [] (tie_sheet ''March 2099'')) ! 0),
               snapshot_book ''k2'' (drafts (parseSheet strict_env sample_now [] (tie_sheet ''March 2099'')) ! 1)] \<and>
   sortDate (drafts (parseSheet strict_env sample_now [] (tie_sheet ''March 2099'')) ! 0) <
     sortDate (drafts (parseSheet strict_env sample_now [] (tie_sheet ''March 2099'')) ! 1) \<and>
   (0 :: nat) < 1"
proof -
  have pq: "(0 :: nat) < 1" by simp
  have q1: "1 < length (drafts (parseSheet strict_env sample_now [] (tie_sheet ''March 2020'')))"
    unfolding tie_facts(1) by simp
  have q2: "1 < length (drafts (parseSheet strict_env sample_now [] (tie_sheet ''March 2099'')))"
    unfolding tie_facts(2) by simp
  have t1: "activeTab (tie_state ''March 2020'' ''read'') \<noteq> ''search''"
    unfolding tie_tabs by simp
  have t2: "activeTab (tie_state ''March 2099'' ''scheduled'') \<noteq> ''search''"
    unfolding tie_tabs by simp
  note r = import_offset_order [OF pq q1 tie_facts(3) t1 tie_views(1), where m = 1 and n = 0
      and ?k1.0 = "''k1''" and ?k2.0 = "''k2''" and cs = sample_columns and ex = "[]" and i = 1
      and row = dune_row and d = dune_draft and ex' = "[''dune'']"]
  note s = import_offset_order [OF pq q2 tie_facts(4) t2 tie_views(2), where m = 0 and n = 1
      and ?k1.0 = "''k1''" and ?k2.0 = "''k2''"]
  have r': "(import_row strict_env sample_now sample_columns [] 1 dune_row = (Produced dune_draft, [''dune'']) \<longrightarrow>
      (\<exists>t. parseDate strict_env (Some (displayDate dune_draft)) = Some t \<and>
        sortDate dune_draft = t + int 1 * 1000)) \<and>
     sortDate (drafts (parseSheet strict_env sample_now [] (tie_sheet ''March 2020'')) ! 0) <
       sortDate (drafts (parseSheet strict_env sample_now [] (tie_sheet ''March 2020'')) ! 1) \<and>
     (activeTab (tie_state ''March 2020'' ''read'') = ''scheduled'' \<longrightarrow> (1::nat) < 0) \<and>
     (activeTab (tie_state ''March 2020'' ''read'') \<noteq> ''scheduled'' \<longrightarrow> (0::nat) < 1)"
    by (rule r) simp_all
  have s': "sortDate (drafts (parseSheet strict_env sample_now [] (tie_sheet ''March 2099'')) ! 0) <
       sortDate (drafts (parseSheet strict_env sample_now [] (tie_sheet ''March 2099'')) ! 1)"
    using s by simp
  from r' dune_produced have a: "\<exists>t. parseDate strict_env (Some (displayDate dune_draft)) = Some t \<and>
        sortDate dune_draft = t + int 1 * 1000"
    by blast
  from r' have b: "sortDate (drafts (parseSheet strict_env sample_now [] (tie_sheet ''March 2020'')) ! 0) <
       sortDate (drafts (parseSheet strict_env sample_now [] (tie_sheet ''March 2020'')) ! 1)"
    by blast
  from dune_produced a tie_views(1) b tie_views(2) s' pq show ?thesis by (intro conjI)
qed

end
